theory Spec2Isabelle
  imports Complex_Main "HOL-Library.Log_Nat"
begin

section \<open>JavaScript values used by both engines\<close>

text \<open>
  The numbers that the engines hold (traits, confidence bands, stress) and that the
  catalogue gives (weights, stress deltas) are finite, so they are values of
  \<^typ>\<open>real\<close>; ages are integers (18 plus whole-year advances). The additions and clamps of
  \<^verbatim>\<open>applyWeights\<close> and \<^verbatim>\<open>applyStress\<close> are taken exactly. The arithmetic of
  \<^verbatim>\<open>calculateChoiceProbability\<close> and of \<^verbatim>\<open>deriveEnneagram\<close>, whose results depend on
  rounding and overflow, is IEEE 754 double arithmetic: each operation rounds its exact
  result to the nearest double and can give an infinity or NaN.
  An object that a loop enumerates (a weight map, \<^verbatim>\<open>scores\<close>, \<^verbatim>\<open>oceanChanges\<close>) is
  an association list in enumeration order, the tag counts are a map, and an optional
  property is an \<^typ>\<open>'a option\<close>, \<^term>\<open>None\<close> standing for an absent (undefined or
  null) property. A method that writes to an engine returns the engine after the call; a
  method that can throw returns \<^term>\<open>Inl\<close> of the error.
\<close>

datatype js_error = TypeError

section \<open>IEEE 754 double arithmetic\<close>

text \<open>
  A value of a JavaScript arithmetic expression: a finite double, an infinity or NaN. The
  two zeros are one value, \<^verbatim>\<open>Num 0\<close>: no result modelled here depends on the sign of
  a zero.
\<close>

datatype js_number = Num real | PosInf | NegInf | NaN

text \<open>The finite doubles are the multiples \<open>m * 2 ^ q\<close> with \<open>|m| \<le> 2 ^ 53\<close> and
  \<open>- 1074 \<le> q\<close> below \<open>2 ^ 1024\<close>.\<close>

definition denorm :: nat where
  "denorm = 1074"

definition huge :: real where
  "huge = 2 ^ 1024"

text \<open>Rounding to the nearest integer, a tie going to the even one.\<close>

definition round_half_even :: "real \<Rightarrow> int" where
  "round_half_even y =
     (let f = \<lfloor>y\<rfloor>; d = y - of_int f in
      if d < 1 / 2 then f else if d > 1 / 2 then f + 1 else if even f then f else f + 1)"

text \<open>The spacing of the doubles around \<open>a \<ge> 0\<close> is \<open>2 ^ quantum a / 2 ^ 1074\<close>:
  \<open>quantum a\<close> is the least \<open>k\<close> with \<open>a < 2 ^ (k + 53) / 2 ^ 1074\<close>, that is 0 on
  the subnormal numbers and the exponent of \<open>a\<close> plus 1022 above them.\<close>

definition quantum :: "real \<Rightarrow> nat" where
  "quantum a = nat (bitlen \<lfloor>a * 2 ^ denorm\<rfloor> - 53)"

text \<open>The multiple of the spacing nearest to \<open>a \<ge> 0\<close>, ties to the even mantissa.\<close>

definition nearest :: "real \<Rightarrow> real" where
  "nearest a =
     (let k = quantum a; m = round_half_even (a * 2 ^ denorm / 2 ^ k)
      in of_int m * 2 ^ k / 2 ^ denorm)"

text \<open>The double of an exact result: round to nearest, ties to even; a magnitude that
  rounds to \<open>2 ^ 1024\<close> or more overflows to the infinity of its sign.\<close>

definition fl :: "real \<Rightarrow> js_number" where
  "fl x =
     (let r = nearest \<bar>x\<bar> in
      if r \<ge> huge then (if x > 0 then PosInf else NegInf)
      else Num (if x \<ge> 0 then r else - r))"

text \<open>The operators \<^verbatim>\<open>+\<close>, unary and binary \<^verbatim>\<open>-\<close>, \<^verbatim>\<open>*\<close> and \<^verbatim>\<open>/\<close>: the exact result
  of two finite operands is rounded; NaN propagates; \<open>\<infinity> - \<infinity>\<close>, \<open>0 * \<infinity>\<close>, \<open>0 / 0\<close> and
  \<open>\<infinity> / \<infinity>\<close> are NaN.\<close>

fun js_add :: "js_number \<Rightarrow> js_number \<Rightarrow> js_number" where
  "js_add (Num x) (Num y) = fl (x + y)"
| "js_add NaN _ = NaN"
| "js_add _ NaN = NaN"
| "js_add PosInf NegInf = NaN"
| "js_add NegInf PosInf = NaN"
| "js_add PosInf _ = PosInf"
| "js_add NegInf _ = NegInf"
| "js_add _ PosInf = PosInf"
| "js_add _ NegInf = NegInf"

fun js_neg :: "js_number \<Rightarrow> js_number" where
  "js_neg (Num x) = Num (- x)"
| "js_neg PosInf = NegInf"
| "js_neg NegInf = PosInf"
| "js_neg NaN = NaN"

definition js_sub :: "js_number \<Rightarrow> js_number \<Rightarrow> js_number" where
  "js_sub x y = js_add x (js_neg y)"

fun js_mul :: "js_number \<Rightarrow> js_number \<Rightarrow> js_number" where
  "js_mul (Num x) (Num y) = fl (x * y)"
| "js_mul NaN _ = NaN"
| "js_mul _ NaN = NaN"
| "js_mul PosInf PosInf = PosInf"
| "js_mul PosInf NegInf = NegInf"
| "js_mul NegInf PosInf = NegInf"
| "js_mul NegInf NegInf = PosInf"
| "js_mul PosInf (Num y) = (if y = 0 then NaN else if y > 0 then PosInf else NegInf)"
| "js_mul NegInf (Num y) = (if y = 0 then NaN else if y > 0 then NegInf else PosInf)"
| "js_mul (Num x) PosInf = (if x = 0 then NaN else if x > 0 then PosInf else NegInf)"
| "js_mul (Num x) NegInf = (if x = 0 then NaN else if x > 0 then NegInf else PosInf)"

text \<open>Division by a zero takes the zero as positive; the engines divide by 20 only.\<close>

fun js_div :: "js_number \<Rightarrow> js_number \<Rightarrow> js_number" where
  "js_div (Num x) (Num y) =
     (if y = 0 then (if x = 0 then NaN else if x > 0 then PosInf else NegInf) else fl (x / y))"
| "js_div NaN _ = NaN"
| "js_div _ NaN = NaN"
| "js_div (Num x) _ = Num 0"
| "js_div PosInf (Num y) = (if y \<ge> 0 then PosInf else NegInf)"
| "js_div NegInf (Num y) = (if y \<ge> 0 then NegInf else PosInf)"
| "js_div _ _ = NaN"

text \<open>The comparisons \<^verbatim>\<open><\<close> and \<^verbatim>\<open>>\<close>: false when an operand is NaN.\<close>

fun js_less :: "js_number \<Rightarrow> js_number \<Rightarrow> bool" where
  "js_less (Num x) (Num y) = (x < y)"
| "js_less NaN _ = False"
| "js_less _ NaN = False"
| "js_less _ NegInf = False"
| "js_less PosInf _ = False"
| "js_less _ _ = True"

definition js_greater :: "js_number \<Rightarrow> js_number \<Rightarrow> bool" where
  "js_greater x y = js_less y x"

text \<open>\<^verbatim>\<open>Math.max\<close> and \<^verbatim>\<open>Math.min\<close> of two arguments: NaN when an argument is NaN.\<close>

fun js_max :: "js_number \<Rightarrow> js_number \<Rightarrow> js_number" where
  "js_max NaN _ = NaN"
| "js_max _ NaN = NaN"
| "js_max x y = (if js_less x y then y else x)"

fun js_min :: "js_number \<Rightarrow> js_number \<Rightarrow> js_number" where
  "js_min NaN _ = NaN"
| "js_min _ NaN = NaN"
| "js_min x y = (if js_less y x then y else x)"

text \<open>\<^verbatim>\<open>Array.prototype.sort(cmp)\<close>: a stable sort. An element is placed before the first
  element that the comparator does not put before it (\<open>cmp x y > 0\<close> puts \<open>y\<close> first; a
  result that is zero, negative or NaN does not), so elements that compare equal keep
  their order.\<close>

fun insert_sorted :: "('a \<Rightarrow> 'a \<Rightarrow> js_number) \<Rightarrow> 'a \<Rightarrow> 'a list \<Rightarrow> 'a list" where
  "insert_sorted cmp x [] = [x]"
| "insert_sorted cmp x (y # ys) =
     (if js_greater (cmp x y) (Num 0) then y # insert_sorted cmp x ys else x # y # ys)"

definition js_sort :: "('a \<Rightarrow> 'a \<Rightarrow> js_number) \<Rightarrow> 'a list \<Rightarrow> 'a list" where
  "js_sort cmp xs = foldr (insert_sorted cmp) xs []"

section \<open>PersonalityEngine\<close>

text \<open>The five keys \<^verbatim>\<open>O\<close>, \<^verbatim>\<open>C\<close>, \<^verbatim>\<open>E\<close>, \<^verbatim>\<open>A\<close>, \<^verbatim>\<open>N\<close> of the \<^verbatim>\<open>ocean\<close> and
  \<^verbatim>\<open>confidence\<close> objects (\<open>O\<close> alone is the composition of relations in HOL).\<close>

datatype trait = TraitO | TraitC | TraitE | TraitA | TraitN

definition all_traits :: "trait list" where
  "all_traits = [TraitO, TraitC, TraitE, TraitA, TraitN]"

text \<open>\<^verbatim>\<open>this.ocean.hasOwnProperty(key)\<close>: the key names one of the five dimensions.\<close>

definition trait_of_key :: "string \<Rightarrow> trait option" where
  "trait_of_key k =
     (if k = ''O'' then Some TraitO
      else if k = ''C'' then Some TraitC
      else if k = ''E'' then Some TraitE
      else if k = ''A'' then Some TraitA
      else if k = ''N'' then Some TraitN
      else None)"


record personality =
  ocean :: "trait \<Rightarrow> real"
  confidence :: "trait \<Rightarrow> real"
  stress :: real
  trajectoryTags :: "string \<rightharpoonup> nat"

definition initial_personality :: personality where
  "initial_personality =
     \<lparr>ocean = (\<lambda>_. 50), confidence = (\<lambda>_. 30), stress = 30, trajectoryTags = Map.empty\<rparr>"

text \<open>\<^verbatim>\<open>reset()\<close>\<close>

definition reset_personality :: "personality \<Rightarrow> personality" where
  "reset_personality p =
     p\<lparr>ocean := (\<lambda>_. 50), confidence := (\<lambda>_. 30), stress := 30, trajectoryTags := Map.empty\<rparr>"

text \<open>The body of the loop of \<^verbatim>\<open>applyWeights\<close>, for one key of the weight map.\<close>

definition applyWeight :: "string \<times> real \<Rightarrow> personality \<Rightarrow> personality" where
  "applyWeight kv p =
     (case trait_of_key (fst kv) of
        None \<Rightarrow> p
      | Some t \<Rightarrow>
          p\<lparr>ocean := (ocean p)(t := max 0 (min 100 (ocean p t + snd kv))),
            confidence := (confidence p)(t := max 5 (confidence p t - 2))\<rparr>)"

text \<open>\<^verbatim>\<open>applyWeights(weights)\<close>: \<^verbatim>\<open>for (const trait in weights)\<close> over the entries of the
  weight map in enumeration order.\<close>

fun applyWeights :: "(string \<times> real) list \<Rightarrow> personality \<Rightarrow> personality" where
  "applyWeights [] p = p"
| "applyWeights (kv # ws) p = applyWeights ws (applyWeight kv p)"

text \<open>\<^verbatim>\<open>applyStress(delta)\<close>\<close>

definition applyStress :: "real \<Rightarrow> personality \<Rightarrow> personality" where
  "applyStress delta p = p\<lparr>stress := max 0 (min 100 (stress p + delta))\<rparr>"

text \<open>\<^verbatim>\<open>addTrajectoryTags(tags)\<close>: \<^verbatim>\<open>(this.trajectoryTags[tag] || 0) + 1\<close> for each tag.\<close>

definition addTrajectoryTag :: "string \<Rightarrow> personality \<Rightarrow> personality" where
  "addTrajectoryTag tag p =
     p\<lparr>trajectoryTags :=
         (trajectoryTags p)(tag \<mapsto> (case trajectoryTags p tag of None \<Rightarrow> 0 | Some n \<Rightarrow> n) + 1)\<rparr>"

fun addTrajectoryTags :: "string list \<Rightarrow> personality \<Rightarrow> personality" where
  "addTrajectoryTags [] p = p"
| "addTrajectoryTags (tag # tags) p = addTrajectoryTags tags (addTrajectoryTag tag p)"

text \<open>\<^verbatim>\<open>deriveMBTI()\<close>\<close>

definition deriveMBTI :: "personality \<Rightarrow> string" where
  "deriveMBTI p =
     (let E_I = (if ocean p TraitE \<ge> 50 then CHR ''E'' else CHR ''I'');
          S_N = (if ocean p TraitO \<ge> 50 then CHR ''N'' else CHR ''S'');
          T_F = (if ocean p TraitA \<ge> 50 then CHR ''F'' else CHR ''T'');
          J_P = (if ocean p TraitC \<ge> 50 then CHR ''J'' else CHR ''P'')
      in [E_I, S_N, T_F, J_P])"

text \<open>\<^verbatim>\<open>deriveEnneagram()\<close>: the \<^verbatim>\<open>scores\<close> object, whose integer keys enumerate in
  ascending order. The literals 1.5, 1.0, 0.5 and 100 are doubles; 0.3 is not, and
  stands for the double nearest to it.\<close>

definition enneagram_scores :: "personality \<Rightarrow> (nat \<times> js_number) list" where
  "enneagram_scores p =
     (let vO = Num (ocean p TraitO); vC = Num (ocean p TraitC); vE = Num (ocean p TraitE);
          vA = Num (ocean p TraitA); vN = Num (ocean p TraitN) in
      [(1, js_sub (js_add (js_mul vC (Num 1.5)) (js_mul (js_sub (Num 100) vA) (Num 0.5)))
                  (js_mul vO (fl 0.3))),
       (2, js_add (js_add (js_mul vA (Num 1.5)) (js_mul vE (Num 0.5))) (js_mul vN (fl 0.3))),
       (3, js_add (js_add (js_mul vC (Num 1.0)) (js_mul vE (Num 1.0)))
                  (js_mul (js_sub (Num 100) vA) (Num 0.5))),
       (4, js_add (js_add (js_mul vO (Num 1.0)) (js_mul vN (Num 1.0)))
                  (js_mul (js_sub (Num 100) vE) (Num 0.5))),
       (5, js_add (js_add (js_mul vO (Num 1.0)) (js_mul (js_sub (Num 100) vE) (Num 1.0)))
                  (js_mul (js_sub (Num 100) vA) (Num 0.5))),
       (6, js_add (js_add (js_mul vN (Num 1.0)) (js_mul vA (Num 0.5))) (js_mul vC (Num 0.5))),
       (7, js_add (js_add (js_mul vO (Num 1.0)) (js_mul vE (Num 1.0)))
                  (js_mul (js_sub (Num 100) vN) (Num 0.5))),
       (8, js_add (js_add (js_mul vE (Num 1.0)) (js_mul (js_sub (Num 100) vA) (Num 1.0)))
                  (js_mul (js_sub (Num 100) vN) (Num 0.5))),
       (9, js_add (js_add (js_mul vA (Num 1.0)) (js_mul (js_sub (Num 100) vN) (Num 1.0)))
                  (js_mul (js_sub (Num 100) vC) (fl 0.3)))])"

text \<open>The comparator \<^verbatim>\<open>(a, b) => b[1] - a[1]\<close>.\<close>

definition by_score_desc :: "'k \<times> js_number \<Rightarrow> 'k \<times> js_number \<Rightarrow> js_number" where
  "by_score_desc a b = js_sub (snd b) (snd a)"

definition enneagram_descriptions :: "nat \<Rightarrow> string" where
  "enneagram_descriptions t =
     (if t = 1 then ''Type 1: The Perfectionist - Principled, purposeful, self-controlled''
      else if t = 2 then ''Type 2: The Helper - Generous, demonstrative, people-pleasing''
      else if t = 3 then ''Type 3: The Achiever - Adaptable, excelling, driven''
      else if t = 4 then ''Type 4: The Individualist - Expressive, dramatic, self-absorbed''
      else if t = 5 then ''Type 5: The Investigator - Perceptive, innovative, isolated''
      else if t = 6 then ''Type 6: The Loyalist - Engaging, responsible, anxious''
      else if t = 7 then ''Type 7: The Enthusiast - Spontaneous, versatile, scattered''
      else if t = 8 then ''Type 8: The Challenger - Self-confident, decisive, confrontational''
      else ''Type 9: The Peacemaker - Receptive, reassuring, complacent'')"

text \<open>The result \<^verbatim>\<open>{ type, description }\<close>; reading element 0 of an empty array is the
  error branch.\<close>

definition deriveEnneagram :: "personality \<Rightarrow> js_error + nat \<times> string" where
  "deriveEnneagram p =
     (case js_sort by_score_desc (enneagram_scores p) of
        [] \<Rightarrow> Inl TypeError
      | entry # _ \<Rightarrow> Inr (fst entry, enneagram_descriptions (fst entry)))"

text \<open>A choice of a scenario, as the catalogue gives it.\<close>

record choice =
  choice_id :: string
  choice_title :: string
  choice_description :: string
  choice_outcome :: string
  ocean_weights :: "(string \<times> real) list option"
  stress_delta :: "real option"
  trajectory_tags :: "string list option"

text \<open>The body of the loop of \<^verbatim>\<open>calculateChoiceProbability\<close>.\<close>

definition alignment_step :: "personality \<Rightarrow> js_number \<Rightarrow> string \<times> real \<Rightarrow> js_number" where
  "alignment_step p alignment kv =
     (case trait_of_key (fst kv) of
        None \<Rightarrow> alignment
      | Some t \<Rightarrow>
          (let weight = snd kv; traitValue = ocean p t in
           if weight > 0
           then js_add alignment
                  (js_mul (js_sub (Num traitValue) (Num 50)) (js_div (Num weight) (Num 20)))
           else js_add alignment
                  (js_mul (js_sub (Num 50) (Num traitValue)) (js_div (Num \<bar>weight\<bar>) (Num 20)))))"

text \<open>\<^verbatim>\<open>calculateChoiceProbability(choice)\<close>; a comparison with an absent
  \<^verbatim>\<open>stress_delta\<close> is false on both branches. The literals 0.2 and 0.15 stand for the
  doubles nearest to them.\<close>

definition calculateChoiceProbability :: "personality \<Rightarrow> choice \<Rightarrow> js_number" where
  "calculateChoiceProbability p ch =
     (case ocean_weights ch of
        None \<Rightarrow> Num 0.5
      | Some ws \<Rightarrow>
          (let alignment = foldl (alignment_step p) (Num 50) ws;
               alignment' =
                 (case stress_delta ch of
                    None \<Rightarrow> alignment
                  | Some d \<Rightarrow>
                      if d < 0 then js_add alignment (js_mul (Num (stress p)) (fl 0.2))
                      else if d > 10 then js_sub alignment (js_mul (Num (stress p)) (fl 0.15))
                      else alignment)
           in js_max (Num 10) (js_min (Num 90) alignment')))"

text \<open>\<^verbatim>\<open>getState()\<close> and \<^verbatim>\<open>restoreState(state)\<close>: the snapshot is a fresh object with
  copies of the four properties.\<close>

record personality_state =
  state_ocean :: "trait \<Rightarrow> real"
  state_confidence :: "trait \<Rightarrow> real"
  state_stress :: real
  state_trajectoryTags :: "string \<rightharpoonup> nat"

definition getState_personality :: "personality \<Rightarrow> personality_state" where
  "getState_personality p =
     \<lparr>state_ocean = ocean p, state_confidence = confidence p,
      state_stress = stress p, state_trajectoryTags = trajectoryTags p\<rparr>"

definition restoreState_personality :: "personality_state \<Rightarrow> personality \<Rightarrow> personality" where
  "restoreState_personality st p =
     p\<lparr>ocean := state_ocean st, confidence := state_confidence st,
       stress := state_stress st, trajectoryTags := state_trajectoryTags st\<rparr>"

section \<open>EventSystem\<close>

record scenario =
  scenario_id :: string
  scenario_title :: string
  scenario_description :: string
  life_stage :: string
  age_range :: "(int \<times> int) option"
  context_tags :: "string list"
  choices :: "choice list"
  reflection_prompts :: "string list option"

text \<open>An entry of \<^verbatim>\<open>eventHistory\<close>; \<^verbatim>\<open>oceanChanges\<close> is an object whose keys are
  inserted in the order of the loop over \<^verbatim>\<open>oceanAfter\<close>.\<close>

record event =
  scenarioId :: string
  title :: string
  choiceId :: string
  choiceTitle :: string
  age :: int
  stage :: string
  outcome :: string
  oceanBefore :: "trait \<Rightarrow> real"
  stressBefore :: real
  oceanAfter :: "trait \<Rightarrow> real"
  stressAfter :: real
  oceanChanges :: "(trait \<times> real) list"

text \<open>The state of \<^verbatim>\<open>EventSystem\<close>. \<^verbatim>\<open>scenarios\<close> is \<^term>\<open>None\<close> when the property
  holds a value that is not an array (a catalogue document without a \<^verbatim>\<open>scenarios\<close>
  list leaves \<^verbatim>\<open>undefined\<close> there).\<close>

record event_system =
  scenarios :: "scenario list option"
  trajectoryDescriptions :: "(string \<times> string) list option"
  globalModifiers :: "(string \<times> string) list option"
  currentAge :: int
  currentStage :: string
  eventHistory :: "event list"
  availableScenarios :: "scenario list"

definition initial_event_system :: event_system where
  "initial_event_system =
     \<lparr>scenarios = Some [], trajectoryDescriptions = None, globalModifiers = None,
      currentAge = 18, currentStage = ''early'', eventHistory = [], availableScenarios = []\<rparr>"

text \<open>The parsed document of \<^verbatim>\<open>data/scenarios.json\<close> and the three outcomes of
  \<^verbatim>\<open>fetch\<close> followed by \<^verbatim>\<open>response.json()\<close>: the fetch rejects, the body is not JSON,
  or a document is parsed (\<^term>\<open>None\<close> for the document \<^verbatim>\<open>null\<close>; a document that is
  not an object has none of the three properties).\<close>

record catalogue =
  cat_scenarios :: "scenario list option"
  trajectory_descriptions :: "(string \<times> string) list option"
  global_modifiers :: "(string \<times> string) list option"

datatype fetch_result = Unreachable | Unparsable | Document "catalogue option"

text \<open>\<^verbatim>\<open>Array.prototype.filter\<close> with a callback that may throw.\<close>

fun js_filter :: "('a \<Rightarrow> js_error + bool) \<Rightarrow> 'a list \<Rightarrow> js_error + 'a list" where
  "js_filter f [] = Inr []"
| "js_filter f (x # xs) =
     (case f x of
        Inl err \<Rightarrow> Inl err
      | Inr b \<Rightarrow>
          (case js_filter f xs of
             Inl err \<Rightarrow> Inl err
           | Inr rest \<Rightarrow> Inr (if b then x # rest else rest)))"

text \<open>The callback of the filter in \<^verbatim>\<open>refreshAvailableScenarios\<close>; destructuring an
  absent \<^verbatim>\<open>age_range\<close> throws.\<close>

definition scenario_filter :: "string list \<Rightarrow> string \<Rightarrow> int \<Rightarrow> scenario \<Rightarrow> js_error + bool" where
  "scenario_filter usedIds cur_stage cur_age sc =
     (if scenario_id sc \<in> set usedIds then Inr False
      else if life_stage sc \<noteq> ''any'' \<and> life_stage sc \<noteq> cur_stage then Inr False
      else (case age_range sc of
              None \<Rightarrow> Inl TypeError
            | Some (minAge, maxAge) \<Rightarrow>
                if cur_age < minAge \<or> cur_age > maxAge then Inr False else Inr True))"

text \<open>\<^verbatim>\<open>refreshAvailableScenarios()\<close>: \<^verbatim>\<open>availableScenarios\<close> is assigned only when the
  filter has returned, so the state at a throw is the state on entry.\<close>

definition refreshAvailableScenarios :: "event_system \<Rightarrow> js_error + event_system" where
  "refreshAvailableScenarios e =
     (let usedIds = map scenarioId (eventHistory e) in
      case scenarios e of
        None \<Rightarrow> Inl TypeError
      | Some scs \<Rightarrow>
          (case js_filter (scenario_filter usedIds (currentStage e) (currentAge e)) scs of
             Inl err \<Rightarrow> Inl err
           | Inr avail \<Rightarrow> Inr (e\<lparr>availableScenarios := avail\<rparr>)))"

text \<open>\<^verbatim>\<open>loadScenarios()\<close>: the result and the state after the call. Every exception of the
  body is caught; the three assignments precede the call that refreshes availability.\<close>

definition loadScenarios :: "fetch_result \<Rightarrow> event_system \<Rightarrow> bool \<times> event_system" where
  "loadScenarios response e =
     (case response of
        Unreachable \<Rightarrow> (False, e)
      | Unparsable \<Rightarrow> (False, e)
      | Document None \<Rightarrow> (False, e)
      | Document (Some data) \<Rightarrow>
          (let e1 = e\<lparr>scenarios := cat_scenarios data,
                      trajectoryDescriptions := trajectory_descriptions data,
                      globalModifiers := global_modifiers data\<rparr> in
           case refreshAvailableScenarios e1 of
             Inl err \<Rightarrow> (False, e1)
           | Inr e2 \<Rightarrow> (True, e2)))"

text \<open>\<^verbatim>\<open>reset()\<close>\<close>

definition reset_events :: "event_system \<Rightarrow> js_error + event_system" where
  "reset_events e =
     refreshAvailableScenarios (e\<lparr>currentAge := 18, currentStage := ''early'', eventHistory := []\<rparr>)"

text \<open>\<^verbatim>\<open>updateStage()\<close>\<close>

definition updateStage :: "event_system \<Rightarrow> event_system" where
  "updateStage e =
     (if currentAge e \<le> 25 then e\<lparr>currentStage := ''early''\<rparr>
      else if currentAge e \<le> 50 then e\<lparr>currentStage := ''mid''\<rparr>
      else e\<lparr>currentStage := ''later''\<rparr>)"

text \<open>\<^verbatim>\<open>calculateAgeAdvance(scenario, choice)\<close>; \<open>rnd\<close> is the value of
  \<^verbatim>\<open>Math.random()\<close>, a number of [0,1).\<close>

definition calculateAgeAdvance :: "real \<Rightarrow> event_system \<Rightarrow> int" where
  "calculateAgeAdvance rnd e =
     (let baseAdvance =
            (if currentStage e = ''early'' then 2
             else if currentStage e = ''mid'' then 3
             else if currentStage e = ''later'' then 4
             else 2);
          variation = \<lfloor>rnd * 2\<rfloor>
      in baseAdvance + variation)"

text \<open>The loop of \<^verbatim>\<open>processChoice\<close> that fills \<^verbatim>\<open>oceanChanges\<close>.\<close>

definition ocean_changes :: "(trait \<Rightarrow> real) \<Rightarrow> (trait \<Rightarrow> real) \<Rightarrow> (trait \<times> real) list" where
  "ocean_changes before after =
     filter (\<lambda>(t, change). change \<noteq> 0) (map (\<lambda>t. (t, after t - before t)) all_traits)"

text \<open>\<^verbatim>\<open>processChoice(scenario, choice)\<close>: the event returned and both engines after the
  call.\<close>

definition processChoice ::
  "real \<Rightarrow> scenario \<Rightarrow> choice \<Rightarrow> personality \<Rightarrow> event_system \<Rightarrow> event \<times> personality \<times> event_system" where
  "processChoice rnd sc ch p e =
     (let p1 = (case ocean_weights ch of None \<Rightarrow> p | Some ws \<Rightarrow> applyWeights ws p);
          p2 = (case stress_delta ch of None \<Rightarrow> p1 | Some d \<Rightarrow> applyStress d p1);
          p3 = (case trajectory_tags ch of None \<Rightarrow> p2 | Some tags \<Rightarrow> addTrajectoryTags tags p2);
          ev = \<lparr>scenarioId = scenario_id sc, title = scenario_title sc,
                choiceId = choice_id ch, choiceTitle = choice_title ch,
                age = currentAge e, stage = currentStage e, outcome = choice_outcome ch,
                oceanBefore = ocean p, stressBefore = stress p,
                oceanAfter = ocean p3, stressAfter = stress p3,
                oceanChanges = ocean_changes (ocean p) (ocean p3)\<rparr>;
          e1 = e\<lparr>eventHistory := eventHistory e @ [ev]\<rparr>;
          ageAdvance = calculateAgeAdvance rnd e1;
          e2 = e1\<lparr>currentAge := currentAge e1 + ageAdvance\<rparr>
      in (ev, p3, updateStage e2))"

text \<open>\<^verbatim>\<open>getChoiceAlignment(choice)\<close>\<close>

definition getChoiceAlignment :: "personality \<Rightarrow> choice \<Rightarrow> string" where
  "getChoiceAlignment p ch =
     (let probability = calculateChoiceProbability p ch in
      if js_greater probability (Num 70) then ''strongly aligned''
      else if js_greater probability (Num 55) then ''somewhat aligned''
      else if js_less probability (Num 30) then ''against your nature''
      else if js_less probability (Num 45) then ''a stretch for you''
      else ''neutral'')"

text \<open>\<^verbatim>\<open>shouldEndSimulation()\<close>: the result and the state after the call.\<close>

definition shouldEndSimulation :: "event_system \<Rightarrow> js_error + bool \<times> event_system" where
  "shouldEndSimulation e =
     (if currentAge e \<ge> 75 then Inr (True, e)
      else (case refreshAvailableScenarios e of
              Inl err \<Rightarrow> Inl err
            | Inr e' \<Rightarrow>
                if length (availableScenarios e') = 0 \<and> length (eventHistory e') \<ge> 5
                then Inr (True, e')
                else Inr (False, e')))"

text \<open>\<^verbatim>\<open>getState()\<close> and \<^verbatim>\<open>restoreState(state)\<close> of the event system.\<close>

record event_state =
  state_currentAge :: int
  state_currentStage :: string
  state_eventHistory :: "event list"

definition getState_events :: "event_system \<Rightarrow> event_state" where
  "getState_events e =
     \<lparr>state_currentAge = currentAge e, state_currentStage = currentStage e,
      state_eventHistory = eventHistory e\<rparr>"

definition restoreState_events :: "event_state \<Rightarrow> event_system \<Rightarrow> js_error + event_system" where
  "restoreState_events st e =
     refreshAvailableScenarios
       (e\<lparr>currentAge := state_currentAge st, currentStage := state_currentStage st,
          eventHistory := state_eventHistory st\<rparr>)"

section \<open>The specification's formulas\<close>

text \<open>Every trait within [0,100] and every confidence band within [5,100].\<close>

definition in_bounds :: "personality \<Rightarrow> bool" where
  "in_bounds p =
     ((\<forall>t. 0 \<le> ocean p t \<and> ocean p t \<le> 100) \<and> (\<forall>t. 5 \<le> confidence p t \<and> confidence p t \<le> 100))"


text \<open>The threshold rule of the four axes, as the specification words it.\<close>

definition spec_mbti :: "(trait \<Rightarrow> real) \<Rightarrow> string" where
  "spec_mbti v =
     [if v TraitE \<ge> 50 then CHR ''E'' else CHR ''I'',
      if v TraitO \<ge> 50 then CHR ''N'' else CHR ''S'',
      if v TraitA \<ge> 50 then CHR ''F'' else CHR ''T'',
      if v TraitC \<ge> 50 then CHR ''J'' else CHR ''P'']"

text \<open>The table of the nine formulas, in exact arithmetic.\<close>

definition exact_enneagram_score :: "(trait \<Rightarrow> real) \<Rightarrow> nat \<Rightarrow> real" where
  "exact_enneagram_score v t =
     (if t = 1 then 1.5 * v TraitC + 0.5 * (100 - v TraitA) - 0.3 * v TraitO
      else if t = 2 then 1.5 * v TraitA + 0.5 * v TraitE + 0.3 * v TraitN
      else if t = 3 then 1.0 * v TraitC + 1.0 * v TraitE + 0.5 * (100 - v TraitA)
      else if t = 4 then 1.0 * v TraitO + 1.0 * v TraitN + 0.5 * (100 - v TraitE)
      else if t = 5 then 1.0 * v TraitO + 1.0 * (100 - v TraitE) + 0.5 * (100 - v TraitA)
      else if t = 6 then 1.0 * v TraitN + 0.5 * v TraitA + 0.5 * v TraitC
      else if t = 7 then 1.0 * v TraitO + 1.0 * v TraitE + 0.5 * (100 - v TraitN)
      else if t = 8 then 1.0 * v TraitE + 1.0 * (100 - v TraitA) + 0.5 * (100 - v TraitN)
      else 1.0 * v TraitA + 1.0 * (100 - v TraitN) + 0.3 * (100 - v TraitC))"

text \<open>The table of the nine formulas, each operation in double arithmetic.\<close>

definition spec_enneagram_score :: "(trait \<Rightarrow> real) \<Rightarrow> nat \<Rightarrow> js_number" where
  "spec_enneagram_score v t =
     (if t = 1 then
        js_sub (js_add (js_mul (Num 1.5) (Num (v TraitC)))
                       (js_mul (Num 0.5) (js_sub (Num 100) (Num (v TraitA)))))
               (js_mul (fl 0.3) (Num (v TraitO)))
      else if t = 2 then
        js_add (js_add (js_mul (Num 1.5) (Num (v TraitA))) (js_mul (Num 0.5) (Num (v TraitE))))
               (js_mul (fl 0.3) (Num (v TraitN)))
      else if t = 3 then
        js_add (js_add (js_mul (Num 1.0) (Num (v TraitC))) (js_mul (Num 1.0) (Num (v TraitE))))
               (js_mul (Num 0.5) (js_sub (Num 100) (Num (v TraitA))))
      else if t = 4 then
        js_add (js_add (js_mul (Num 1.0) (Num (v TraitO))) (js_mul (Num 1.0) (Num (v TraitN))))
               (js_mul (Num 0.5) (js_sub (Num 100) (Num (v TraitE))))
      else if t = 5 then
        js_add (js_add (js_mul (Num 1.0) (Num (v TraitO)))
                       (js_mul (Num 1.0) (js_sub (Num 100) (Num (v TraitE)))))
               (js_mul (Num 0.5) (js_sub (Num 100) (Num (v TraitA))))
      else if t = 6 then
        js_add (js_add (js_mul (Num 1.0) (Num (v TraitN))) (js_mul (Num 0.5) (Num (v TraitA))))
               (js_mul (Num 0.5) (Num (v TraitC)))
      else if t = 7 then
        js_add (js_add (js_mul (Num 1.0) (Num (v TraitO))) (js_mul (Num 1.0) (Num (v TraitE))))
               (js_mul (Num 0.5) (js_sub (Num 100) (Num (v TraitN))))
      else if t = 8 then
        js_add (js_add (js_mul (Num 1.0) (Num (v TraitE)))
                       (js_mul (Num 1.0) (js_sub (Num 100) (Num (v TraitA)))))
               (js_mul (Num 0.5) (js_sub (Num 100) (Num (v TraitN))))
      else
        js_add (js_add (js_mul (Num 1.0) (Num (v TraitA)))
                       (js_mul (Num 1.0) (js_sub (Num 100) (Num (v TraitN)))))
               (js_mul (fl 0.3) (js_sub (Num 100) (Num (v TraitC)))))"

text \<open>The alignment of a choice before clamping, each operation in double arithmetic: 50,
  plus in turn the contribution of every recognized dimension of nonzero weight, then plus
  or minus the stress adjustment.\<close>

definition spec_contribution :: "personality \<Rightarrow> trait \<Rightarrow> real \<Rightarrow> js_number" where
  "spec_contribution p t w =
     (if w > 0 then js_mul (js_sub (Num (ocean p t)) (Num 50)) (js_div (Num w) (Num 20))
      else js_mul (js_sub (Num 50) (Num (ocean p t))) (js_div (Num \<bar>w\<bar>) (Num 20)))"

fun spec_add_contributions :: "personality \<Rightarrow> js_number \<Rightarrow> (string \<times> real) list \<Rightarrow> js_number" where
  "spec_add_contributions p a [] = a"
| "spec_add_contributions p a ((k, w) # ws) =
     (case trait_of_key k of
        None \<Rightarrow> spec_add_contributions p a ws
      | Some t \<Rightarrow>
          if w = 0 then spec_add_contributions p a ws
          else spec_add_contributions p (js_add a (spec_contribution p t w)) ws)"

definition spec_stress_adjustment :: "personality \<Rightarrow> real option \<Rightarrow> js_number \<Rightarrow> js_number" where
  "spec_stress_adjustment p sd a =
     (case sd of
        None \<Rightarrow> a
      | Some d \<Rightarrow>
          if d < 0 then js_add a (js_mul (Num (stress p)) (fl 0.2))
          else if d > 10 then js_sub a (js_mul (Num (stress p)) (fl 0.15))
          else a)"

definition spec_alignment :: "personality \<Rightarrow> (string \<times> real) list \<Rightarrow> real option \<Rightarrow> js_number" where
  "spec_alignment p ws sd =
     spec_stress_adjustment p sd (spec_add_contributions p (Num 50) ws)"

text \<open>A finite number of magnitude at most \<open>2 ^ k\<close>.\<close>

definition mag :: "nat \<Rightarrow> js_number \<Rightarrow> bool" where
  "mag k x = (case x of Num r \<Rightarrow> \<bar>r\<bar> \<le> 2 ^ k | _ \<Rightarrow> False)"

text \<open>A finite double: a number that rounding leaves as it is.\<close>

definition finite_double :: "js_number \<Rightarrow> bool" where
  "finite_double x = (case x of Num r \<Rightarrow> fl r = Num r | _ \<Rightarrow> False)"

text \<open>The real value of a finite number.\<close>

fun js_value :: "js_number \<Rightarrow> real" where
  "js_value (Num r) = r"
| "js_value _ = 0"

text \<open>Availability of a scenario: its id is not in the history, its stage affinity is
  \<^verbatim>\<open>any\<close> or the current stage, and its age range contains the current age.\<close>

definition spec_available :: "event_system \<Rightarrow> scenario \<Rightarrow> bool" where
  "spec_available e sc =
     (scenario_id sc \<notin> set (map scenarioId (eventHistory e))
      \<and> (life_stage sc = ''any'' \<or> life_stage sc = currentStage e)
      \<and> (case age_range sc of
           None \<Rightarrow> False
         | Some (minAge, maxAge) \<Rightarrow> minAge \<le> currentAge e \<and> currentAge e \<le> maxAge))"

section \<open>Example inputs\<close>

definition example_personality :: personality where
  "example_personality =
     initial_personality
       \<lparr>ocean := (\<lambda>_. 50)(TraitO := 60, TraitC := 40, TraitE := 70, TraitA := 30)\<rparr>"

definition unweighted_choice :: choice where
  "unweighted_choice =
     \<lparr>choice_id = ''stay'', choice_title = ''Stay home'', choice_description = ''Nothing changes'',
      choice_outcome = ''You stay.'', ocean_weights = None,
      stress_delta = Some (- 5), trajectory_tags = None\<rparr>"


definition weighted_choice :: choice where
  "weighted_choice =
     \<lparr>choice_id = ''plan'', choice_title = ''Plan ahead'', choice_description = ''Make a list'',
      choice_outcome = ''You plan.'',
      ocean_weights = Some [(''C'', 15), (''E'', - 10), (''mood'', 4)],
      stress_delta = Some (- 10), trajectory_tags = None\<rparr>"

definition example_choice :: choice where
  "example_choice =
     \<lparr>choice_id = ''study'', choice_title = ''Study hard'', choice_description = ''Hit the books'',
      choice_outcome = ''You pass.'',
      ocean_weights = Some [(''C'', 15)],
      stress_delta = Some (- 10), trajectory_tags = Some [''career'']\<rparr>"

definition example_scenario :: scenario where
  "example_scenario =
     \<lparr>scenario_id = ''exam'', scenario_title = ''Final exam'', scenario_description = ''An exam'',
      life_stage = ''early'', age_range = Some (15, 25), context_tags = [''school''],
      choices = [example_choice], reflection_prompts = None\<rparr>"

definition example_event :: event where
  "example_event =
     \<lparr>scenarioId = ''exam'', title = ''Final exam'', choiceId = ''study'',
      choiceTitle = ''Study hard'', age = 18, stage = ''early'', outcome = ''You pass.'',
      oceanBefore = (\<lambda>_. 50), stressBefore = 30,
      oceanAfter = (\<lambda>_. 50)(TraitC := 65), stressAfter = 20,
      oceanChanges = [(TraitC, 15)]\<rparr>"

definition midlife_scenario :: scenario where
  "midlife_scenario =
     \<lparr>scenario_id = ''promotion'', scenario_title = ''A promotion'',
      scenario_description = ''An offer'', life_stage = ''mid'', age_range = Some (30, 40),
      context_tags = [''career''], choices = [], reflection_prompts = None\<rparr>"

definition narrow_engine :: "event list \<Rightarrow> int \<Rightarrow> event_system" where
  "narrow_engine history a =
     initial_event_system
       \<lparr>scenarios := Some [midlife_scenario], eventHistory := history, currentAge := a\<rparr>"

definition played_engine :: event_system where
  "played_engine =
     \<lparr>scenarios = Some [example_scenario, midlife_scenario],
      trajectoryDescriptions = Some [(''career'', ''A working life'')], globalModifiers = None,
      currentAge = 31, currentStage = ''mid'', eventHistory = [example_event],
      availableScenarios = [midlife_scenario]\<rparr>"

definition shapeless_document :: fetch_result where
  "shapeless_document =
     Document (Some \<lparr>cat_scenarios = None,
                     trajectory_descriptions = Some [(''career'', ''A working life'')],
                     global_modifiers = None\<rparr>)"

definition rangeless_scenario :: scenario where
  "rangeless_scenario =
     \<lparr>scenario_id = ''move'', scenario_title = ''Moving out'',
      scenario_description = ''A new flat'', life_stage = ''any'', age_range = None,
      context_tags = [], choices = [], reflection_prompts = None\<rparr>"

definition rangeless_document :: fetch_result where
  "rangeless_document =
     Document (Some \<lparr>cat_scenarios = Some [rangeless_scenario],
                     trajectory_descriptions = None, global_modifiers = None\<rparr>)"

definition tie_personality :: personality where
  "tie_personality =
     initial_personality
       \<lparr>ocean := (\<lambda>_. 50)(TraitC := 7050948166601933 / 2 ^ 47,
                          TraitA := 3504363460047667 / 2 ^ 46)\<rparr>"

definition overflow_personality :: personality where
  "overflow_personality =
     initial_personality\<lparr>ocean := (\<lambda>_. 50)(TraitC := 100, TraitE := 100)\<rparr>"

definition overflow_weight :: real where
  "overflow_weight = 5 * 2 ^ 1021"

definition overflow_choice :: choice where
  "overflow_choice =
     \<lparr>choice_id = ''leap'', choice_title = ''Leap'', choice_description = ''All or nothing'',
      choice_outcome = ''You leap.'',
      ocean_weights = Some [(''C'', overflow_weight), (''E'', - overflow_weight)],
      stress_delta = None, trajectory_tags = None\<rparr>"

section \<open>Bounds of the trait vector and the confidence bands\<close>

lemma in_bounds_initial: "in_bounds initial_personality"
  by (simp add: in_bounds_def initial_personality_def)

lemma in_bounds_applyWeight:
  assumes "in_bounds p"
  shows "in_bounds (applyWeight kv p)"
proof (cases "trait_of_key (fst kv)")
  case None
  with assms show ?thesis by (simp add: applyWeight_def)
next
  case (Some t0)
  have o: "0 \<le> ocean p t" "ocean p t \<le> 100" for t
    using assms by (simp_all add: in_bounds_def)
  have c: "5 \<le> confidence p t" "confidence p t \<le> 100" for t
    using assms by (simp_all add: in_bounds_def)
  have "confidence p t0 - 2 \<le> 100"
    using c(2) [of t0] by linarith
  then show ?thesis
    by (simp add: in_bounds_def applyWeight_def Some o c)
qed

lemma in_bounds_applyWeights: "in_bounds p \<Longrightarrow> in_bounds (applyWeights ws p)"
  by (induction ws arbitrary: p) (simp_all add: in_bounds_applyWeight)

lemma in_bounds_calls:
  "in_bounds p \<Longrightarrow> in_bounds (foldl (\<lambda>q ws. applyWeights ws q) p calls)"
  by (induction calls arbitrary: p) (simp_all add: in_bounds_applyWeights)

text \<open>
  C1. Starting from the initial state (all traits 50, all confidence bands 30), after any
  sequence of \<^verbatim>\<open>applyWeights\<close> calls with arbitrary weight maps every trait is within
  [0,100] and every confidence band within [5,100].
\<close>

theorem applyWeights_sequence_bounds:
  "0 \<le> ocean (foldl (\<lambda>q ws. applyWeights ws q) initial_personality calls) t
   \<and> ocean (foldl (\<lambda>q ws. applyWeights ws q) initial_personality calls) t \<le> 100
   \<and> 5 \<le> confidence (foldl (\<lambda>q ws. applyWeights ws q) initial_personality calls) t
   \<and> confidence (foldl (\<lambda>q ws. applyWeights ws q) initial_personality calls) t \<le> 100"
  using in_bounds_calls [OF in_bounds_initial, of calls]
  by (simp add: in_bounds_def)


theorem applyWeights_sequence_bounds_witness:
  "0 \<le> ocean (foldl (\<lambda>q ws. applyWeights ws q) initial_personality
            [[(''O'', 200)], [(''mood'', 3), (''N'', - 70)], [(''N'', - 70)]]) TraitN
   \<and> ocean (foldl (\<lambda>q ws. applyWeights ws q) initial_personality
            [[(''O'', 200)], [(''mood'', 3), (''N'', - 70)], [(''N'', - 70)]]) TraitN \<le> 100
   \<and> 5 \<le> confidence (foldl (\<lambda>q ws. applyWeights ws q) initial_personality
            [[(''O'', 200)], [(''mood'', 3), (''N'', - 70)], [(''N'', - 70)]]) TraitN
   \<and> confidence (foldl (\<lambda>q ws. applyWeights ws q) initial_personality
            [[(''O'', 200)], [(''mood'', 3), (''N'', - 70)], [(''N'', - 70)]]) TraitN \<le> 100"
  by (rule applyWeights_sequence_bounds)

section \<open>The MBTI code\<close>

text \<open>
  C2, as stated, fails at its first example: Conscientiousness 40 is below the threshold,
  so the last letter is P and the code is ENTP, not ENTJ.
\<close>

theorem deriveMBTI_example_counterexample:
  "ocean example_personality TraitO = 60 \<and> ocean example_personality TraitC = 40
   \<and> ocean example_personality TraitE = 70 \<and> ocean example_personality TraitA = 30
   \<and> ocean example_personality TraitN = 50
   \<and> deriveMBTI example_personality = ''ENTP''
   \<and> deriveMBTI example_personality \<noteq> ''ENTJ''"
  by (simp add: deriveMBTI_def example_personality_def initial_personality_def)

text \<open>
  C2, amended. \<^verbatim>\<open>deriveMBTI\<close> is a function of the trait vector alone and thresholds
  each axis at 50 with \<open>\<ge>\<close> (E else I on Extraversion, N else S on Openness, F else T on
  Agreeableness, J else P on Conscientiousness); the vector O=60, C=40, E=70, A=30, N=50
  gives ENTP and the vector with O, C, E and A at 50 gives ENFJ.
\<close>

theorem deriveMBTI_threshold_rule:
  "deriveMBTI p = spec_mbti (ocean p)
   \<and> (ocean p = ocean q \<longrightarrow> deriveMBTI p = deriveMBTI q)
   \<and> (ocean p TraitO = 60 \<and> ocean p TraitC = 40 \<and> ocean p TraitE = 70
        \<and> ocean p TraitA = 30 \<and> ocean p TraitN = 50 \<longrightarrow> deriveMBTI p = ''ENTP'')
   \<and> (ocean p TraitO = 50 \<and> ocean p TraitC = 50 \<and> ocean p TraitE = 50
        \<and> ocean p TraitA = 50 \<longrightarrow> deriveMBTI p = ''ENFJ'')"
  by (simp add: deriveMBTI_def spec_mbti_def)

theorem deriveMBTI_threshold_rule_witness:
  "ocean example_personality = ocean (example_personality\<lparr>stress := 80\<rparr>)
   \<and> deriveMBTI example_personality = deriveMBTI (example_personality\<lparr>stress := 80\<rparr>)
   \<and> ocean example_personality TraitO = 60 \<and> ocean example_personality TraitC = 40
   \<and> ocean example_personality TraitE = 70 \<and> ocean example_personality TraitA = 30
   \<and> ocean example_personality TraitN = 50
   \<and> deriveMBTI example_personality = ''ENTP''
   \<and> ocean initial_personality TraitO = 50 \<and> ocean initial_personality TraitC = 50
   \<and> ocean initial_personality TraitE = 50 \<and> ocean initial_personality TraitA = 50
   \<and> deriveMBTI initial_personality = ''ENFJ''"
proof -
  have a: "ocean example_personality = ocean (example_personality\<lparr>stress := 80\<rparr>)"
    by simp
  have b: "ocean example_personality TraitO = 60 \<and> ocean example_personality TraitC = 40
           \<and> ocean example_personality TraitE = 70 \<and> ocean example_personality TraitA = 30
           \<and> ocean example_personality TraitN = 50"
    by (simp add: example_personality_def initial_personality_def)
  have c: "ocean initial_personality TraitO = 50 \<and> ocean initial_personality TraitC = 50
           \<and> ocean initial_personality TraitE = 50 \<and> ocean initial_personality TraitA = 50"
    by (simp add: initial_personality_def)
  have "deriveMBTI example_personality = deriveMBTI (example_personality\<lparr>stress := 80\<rparr>)
        \<and> deriveMBTI example_personality = ''ENTP''"
    using deriveMBTI_threshold_rule [of example_personality "example_personality\<lparr>stress := 80\<rparr>"] a b
    by blast
  moreover have "deriveMBTI initial_personality = ''ENFJ''"
    using deriveMBTI_threshold_rule [of initial_personality initial_personality] c
    by blast
  ultimately show ?thesis
    using a b c by blast
qed

section \<open>Rounding to the nearest double\<close>

lemma rhe_int: "round_half_even (of_int m) = m"
  by (simp add: round_half_even_def)

lemma rhe_floor: "\<lfloor>y\<rfloor> \<le> round_half_even y \<and> round_half_even y \<le> \<lfloor>y\<rfloor> + 1"
  by (simp add: round_half_even_def Let_def)

lemma rhe_near: "\<bar>of_int (round_half_even y) - y\<bar> \<le> 1 / 2"
proof -
  have "of_int \<lfloor>y\<rfloor> \<le> y" "y < of_int \<lfloor>y\<rfloor> + 1"
    by linarith+
  then show ?thesis
    by (auto simp: round_half_even_def Let_def abs_le_iff)
qed

lemma rhe_ge: "of_int n \<le> y \<Longrightarrow> n \<le> round_half_even y"
  using rhe_floor [of y] le_floor_iff [of n y] by linarith

lemma rhe_le: "y \<le> of_int n \<Longrightarrow> round_half_even y \<le> n"
proof (cases "y = of_int n")
  case True
  then show ?thesis by (simp add: rhe_int)
next
  case False
  assume "y \<le> of_int n"
  with False have "y < of_int n" by simp
  then have "\<lfloor>y\<rfloor> < n" by (simp add: floor_less_iff)
  with rhe_floor [of y] show ?thesis by linarith
qed

lemma bitlen_ge_52: "int (K + 53) \<le> bitlen n \<longleftrightarrow> 2 ^ (K + 52) \<le> n"
proof -
  have "nat (int (K + 53)) - 1 = K + 52"
    by simp
  with bitlen_ge_iff_power [of "int (K + 53)" n] show ?thesis
    by (simp del: of_nat_add add: add.commute)
qed

lemma bitlen_le_53: "bitlen n \<le> int (K + 53) \<longleftrightarrow> n < 2 ^ (K + 53)"
  using bitlen_le_iff_power [of n "int (K + 53)"] by (simp del: of_nat_add)

lemma quantum_eqI:
  assumes "a * 2 ^ denorm < 2 ^ (K + 53)" and "K = 0 \<or> 2 ^ (K + 52) \<le> a * 2 ^ denorm"
  shows "quantum a = K"
proof -
  let ?n = "\<lfloor>a * 2 ^ denorm\<rfloor>"
  from assms(1) have "?n < 2 ^ (K + 53)"
    by (simp add: floor_less_iff)
  then have le: "bitlen ?n \<le> int (K + 53)"
    by (simp only: bitlen_le_53)
  show ?thesis
  proof (cases "K = 0")
    case True
    with le show ?thesis by (simp add: quantum_def)
  next
    case False
    with assms(2) have "2 ^ (K + 52) \<le> ?n"
      by (simp add: le_floor_iff)
    then have "int (K + 53) \<le> bitlen ?n"
      by (simp only: bitlen_ge_52)
    with le have "bitlen ?n = int (K + 53)" by simp
    then show ?thesis by (simp add: quantum_def)
  qed
qed

lemma quantum_spec:
  "a * 2 ^ denorm < 2 ^ (quantum a + 53)
   \<and> (quantum a = 0 \<or> 2 ^ (quantum a + 52) \<le> a * 2 ^ denorm)"
proof -
  let ?n = "\<lfloor>a * 2 ^ denorm\<rfloor>"
  let ?k = "quantum a"
  have "bitlen ?n \<le> int (?k + 53)"
    by (simp add: quantum_def)
  then have "?n < 2 ^ (?k + 53)"
    by (simp only: bitlen_le_53)
  then have 1: "a * 2 ^ denorm < 2 ^ (?k + 53)"
    by (simp add: floor_less_iff)
  have 2: "2 ^ (?k + 52) \<le> a * 2 ^ denorm" if "?k \<noteq> 0"
  proof -
    from that have "int (?k + 53) \<le> bitlen ?n"
      by (simp add: quantum_def)
    then have "2 ^ (?k + 52) \<le> ?n"
      by (simp only: bitlen_ge_52)
    then show ?thesis
      by (simp add: le_floor_iff)
  qed
  from 1 2 show ?thesis by blast
qed

lemma quantum_0: "quantum 0 = 0"
  by (simp add: quantum_def)

lemma nearest_0: "nearest 0 = 0"
  by (simp add: nearest_def quantum_0 round_half_even_def)

lemma nearest_nonneg: "0 \<le> a \<Longrightarrow> 0 \<le> nearest a"
proof -
  assume "0 \<le> a"
  then have "of_int 0 \<le> a * 2 ^ denorm / 2 ^ quantum a"
    by simp
  then have "0 \<le> round_half_even (a * 2 ^ denorm / 2 ^ quantum a)"
    by (rule rhe_ge)
  then show ?thesis
    by (simp add: nearest_def Let_def)
qed

lemma mantissa_bounds:
  assumes "0 \<le> a"
  shows "round_half_even (a * 2 ^ denorm / 2 ^ quantum a) \<le> 2 ^ 53"
    and "quantum a \<noteq> 0 \<Longrightarrow> 2 ^ 52 \<le> round_half_even (a * 2 ^ denorm / 2 ^ quantum a)"
proof -
  let ?k = "quantum a"
  from quantum_spec [of a] have "a * 2 ^ denorm < 2 ^ 53 * 2 ^ ?k"
    by (simp add: power_add mult.commute)
  then have "a * 2 ^ denorm / 2 ^ ?k \<le> of_int (2 ^ 53)"
    by (simp add: pos_divide_le_eq)
  then show "round_half_even (a * 2 ^ denorm / 2 ^ ?k) \<le> 2 ^ 53"
    by (rule rhe_le)
  assume "?k \<noteq> 0"
  with quantum_spec [of a] have "2 ^ 52 * 2 ^ ?k \<le> a * 2 ^ denorm"
    by (simp add: power_add mult.commute)
  then have "of_int (2 ^ 52) \<le> a * 2 ^ denorm / 2 ^ ?k"
    by (simp add: pos_le_divide_eq)
  then show "2 ^ 52 \<le> round_half_even (a * 2 ^ denorm / 2 ^ ?k)"
    by (rule rhe_ge)
qed

lemma nearest_grid: "\<exists>i. nearest a = of_int i / 2 ^ denorm"
proof -
  have "nearest a = of_int (round_half_even (a * 2 ^ denorm / 2 ^ quantum a) * 2 ^ quantum a)
                      / 2 ^ denorm"
    by (simp add: nearest_def Let_def)
  then show ?thesis ..
qed

lemma nearest_eqI:
  "quantum b = k \<Longrightarrow> b * 2 ^ denorm / 2 ^ k = y \<Longrightarrow>
     nearest b = of_int (round_half_even y) * 2 ^ k / 2 ^ denorm"
  by (simp add: nearest_def)

lemma nearest_certificate:
  assumes "v \<le> u + denorm"
    and "2 ^ 52 \<le> a * 2 ^ v / 2 ^ u" and "a * 2 ^ v / 2 ^ u < 2 ^ 53"
  shows "nearest a = of_int (round_half_even (a * 2 ^ v / 2 ^ u)) * 2 ^ u / 2 ^ v"
proof -
  define K where "K = u + denorm - v"
  define y where "y = a * 2 ^ v / 2 ^ u"
  from assms(1) have e: "K + v = u + denorm"
    by (simp add: K_def)
  then have p: "(2::real) ^ K * 2 ^ v = 2 ^ u * 2 ^ denorm"
    by (simp add: power_add [symmetric])
  then have d: "(2::real) ^ denorm = 2 ^ K * 2 ^ v / 2 ^ u"
    by (simp add: field_simps)
  have s: "a * 2 ^ denorm = y * 2 ^ K"
    unfolding d y_def by simp
  from assms(3) have "y * 2 ^ K < 2 ^ 53 * 2 ^ K"
    unfolding y_def [symmetric] by simp
  then have 1: "a * 2 ^ denorm < 2 ^ (K + 53)"
    unfolding s by (simp add: power_add mult.commute)
  from assms(2) have "2 ^ 52 * 2 ^ K \<le> y * 2 ^ K"
    unfolding y_def [symmetric] by simp
  then have 2: "2 ^ (K + 52) \<le> a * 2 ^ denorm"
    unfolding s by (simp add: power_add mult.commute)
  from 1 2 have q: "quantum a = K"
    by (simp add: quantum_eqI)
  have n: "a * 2 ^ denorm / 2 ^ K = y"
    unfolding s by simp
  have "of_int m * 2 ^ K / 2 ^ denorm = of_int m * 2 ^ u / (2::real) ^ v" for m
    unfolding d by simp
  with nearest_eqI [OF q n] show ?thesis
    by (simp add: y_def)
qed

lemma nearest_idem:
  assumes "0 \<le> a"
  shows "nearest (nearest a) = nearest a"
proof -
  let ?k = "quantum a"
  let ?m = "round_half_even (a * 2 ^ denorm / 2 ^ ?k)"
  let ?r = "nearest a"
  have r: "?r * 2 ^ denorm = of_int ?m * 2 ^ ?k"
    by (simp add: nearest_def Let_def)
  note mb = mantissa_bounds [OF assms]
  show ?thesis
  proof (cases "?m = 2 ^ 53")
    case True
    then have rs: "?r * 2 ^ denorm = 2 ^ (?k + 1 + 52)"
      unfolding r by (simp add: power_add)
    then have "quantum ?r = ?k + 1"
      by (intro quantum_eqI) (simp_all add: power_add)
    moreover have "?r * 2 ^ denorm / 2 ^ (?k + 1) = of_int (2 ^ 52)"
      unfolding rs by (simp add: power_add)
    ultimately have "nearest ?r = of_int (2 ^ 52) * 2 ^ (?k + 1) / 2 ^ denorm"
      using nearest_eqI [of ?r "?k + 1" "of_int (2 ^ 52)"] by (simp only: rhe_int)
    also have "\<dots> = of_int ?m * 2 ^ ?k / 2 ^ denorm"
      unfolding True by (simp add: power_add)
    finally show ?thesis
      by (simp add: nearest_def Let_def)
  next
    case False
    with mb(1) have lt: "?m < 2 ^ 53"
      by simp
    then have "real_of_int ?m < 2 ^ 53"
      by (metis of_int_less_iff of_int_numeral of_int_power)
    then have 1: "?r * 2 ^ denorm < 2 ^ (?k + 53)"
      unfolding r by (simp add: power_add mult.commute)
    have 2: "?k = 0 \<or> 2 ^ (?k + 52) \<le> ?r * 2 ^ denorm"
    proof (cases "?k = 0")
      case True
      then show ?thesis by simp
    next
      case False
      with mb(2) have "2 ^ 52 \<le> ?m"
        by simp
      then have "(2::real) ^ 52 \<le> real_of_int ?m"
        by (metis of_int_le_iff of_int_numeral of_int_power)
      then show ?thesis
        unfolding r by (simp add: power_add mult.commute)
    qed
    from 1 2 have q: "quantum ?r = ?k"
      by (rule quantum_eqI)
    have "?r * 2 ^ denorm / 2 ^ ?k = of_int ?m"
      unfolding r by simp
    then have "nearest ?r = of_int ?m * 2 ^ ?k / 2 ^ denorm"
      using nearest_eqI [OF q, of "of_int ?m"] by (simp only: rhe_int)
    then show ?thesis
      by (simp add: nearest_def Let_def)
  qed
qed

lemma nearest_close:
  "\<bar>nearest a - a\<bar> \<le> 2 ^ quantum a / (2 * 2 ^ denorm)"
proof -
  define S :: real where "S = 2 ^ denorm"
  define P :: real where "P = 2 ^ quantum a"
  define y where "y = a * S / P"
  have pos: "0 < S" "0 < P"
    by (simp_all add: S_def P_def)
  have a: "a = y * P / S"
    using pos by (simp add: y_def)
  have "nearest a = of_int (round_half_even y) * P / S"
    by (simp add: nearest_def Let_def S_def P_def y_def)
  moreover have "of_int (round_half_even y) * P / S - y * P / S
                   = (of_int (round_half_even y) - y) * P / S"
    by (simp add: left_diff_distrib diff_divide_distrib)
  ultimately have "nearest a - a = (of_int (round_half_even y) - y) * P / S"
    using a by simp
  then have "\<bar>nearest a - a\<bar> = \<bar>of_int (round_half_even y) - y\<bar> * (P / S)"
    using pos by (simp add: abs_mult)
  also have "\<dots> \<le> 1 / 2 * (P / S)"
    using rhe_near [of y] pos by (intro mult_right_mono) simp_all
  finally show ?thesis
    by (simp add: S_def P_def)
qed

lemma nearest_le:
  assumes "0 \<le> a"
  shows "nearest a \<le> 2 * a + 1"
proof -
  define S :: real where "S = 2 ^ denorm"
  define P :: real where "P = 2 ^ quantum a"
  have pos: "1 \<le> S" "0 < P"
    by (simp_all add: S_def P_def)
  from nearest_close [of a] have c: "nearest a \<le> a + P / (2 * S)"
    by (simp add: S_def P_def abs_le_iff)
  have "P / (2 * S) \<le> a + 1"
  proof (cases "quantum a = 0")
    case True
    then have "P = 1" by (simp add: P_def)
    then have "P / (2 * S) \<le> 1"
      using pos by simp
    with assms show ?thesis by linarith
  next
    case False
    with quantum_spec [of a] have "2 ^ 52 * P \<le> a * S"
      by (simp add: power_add mult.commute S_def P_def)
    moreover have "P \<le> 2 ^ 52 * P"
      using pos by simp
    ultimately have "P \<le> a * S"
      by linarith
    then have "P / (2 * S) \<le> a"
      using pos assms by (simp add: field_simps)
    then show ?thesis by linarith
  qed
  with c show ?thesis by linarith
qed

lemma nearest_pos:
  assumes "1 / 2 ^ denorm \<le> a"
  shows "1 / 2 ^ denorm \<le> nearest a"
proof -
  define S :: real where "S = 2 ^ denorm"
  define P :: real where "P = 2 ^ quantum a"
  define y where "y = a * S / P"
  have pos: "0 < S" "1 \<le> P"
    by (simp_all add: S_def P_def)
  from assms have aS: "1 \<le> a * S"
    using pos by (simp add: S_def field_simps)
  have "of_int 1 \<le> y"
  proof (cases "quantum a = 0")
    case True
    with aS show ?thesis by (simp add: y_def P_def)
  next
    case False
    with quantum_spec [of a] have "2 ^ 52 * P \<le> a * S"
      by (simp add: power_add mult.commute S_def P_def)
    then have "2 ^ 52 \<le> y"
      using pos by (simp add: y_def pos_le_divide_eq)
    then show ?thesis by simp
  qed
  then have "1 \<le> round_half_even y"
    by (rule rhe_ge)
  then have "1 \<le> real_of_int (round_half_even y)"
    by simp
  then have "1 * 1 \<le> real_of_int (round_half_even y) * P"
    using pos by (intro mult_mono) simp_all
  then have "1 / S \<le> real_of_int (round_half_even y) * P / S"
    using pos by (simp add: divide_right_mono)
  then show ?thesis
    by (simp add: nearest_def Let_def S_def P_def y_def)
qed

lemma huge_denorm: "huge * 2 ^ denorm = 2 ^ 2098"
  unfolding huge_def denorm_def by (simp only: power_add [symmetric]) simp

lemma nearest_huge:
  assumes "huge \<le> a"
  shows "huge \<le> nearest a"
proof -
  define S :: real where "S = 2 ^ denorm"
  define k where "k = quantum a"
  define y where "y = a * S / 2 ^ k"
  have pos: "0 < S"
    by (simp add: S_def)
  from assms have "huge * S \<le> a * S"
    using pos by simp
  then have aS: "2 ^ 2098 \<le> a * S"
    by (simp add: S_def huge_denorm)
  with quantum_spec [of a] have f: "(2::real) ^ 2098 < 2 ^ (k + 53)"
    by (simp add: S_def k_def)
  have "2098 < k + 53"
    by (rule power_less_imp_less_exp [OF _ f]) simp
  then have k: "2046 \<le> k"
    by simp
  then have "k \<noteq> 0"
    by simp
  with mantissa_bounds(2) [of a] assms have "2 ^ 52 \<le> round_half_even y"
    by (simp add: y_def S_def k_def huge_def order_trans [of 0 "2 ^ 1024" a])
  then have m: "(2::real) ^ 52 \<le> real_of_int (round_half_even y)"
    by (metis of_int_le_iff of_int_numeral of_int_power)
  from k have "(2::real) ^ 2046 \<le> 2 ^ k"
    by (intro power_increasing) simp_all
  with m have "(2::real) ^ 52 * 2 ^ 2046 \<le> real_of_int (round_half_even y) * 2 ^ k"
    by (intro mult_mono) simp_all
  then have "huge * S \<le> real_of_int (round_half_even y) * 2 ^ k"
    by (simp add: S_def huge_denorm)
  then have "huge \<le> real_of_int (round_half_even y) * 2 ^ k / S"
    using pos by (simp add: pos_le_divide_eq)
  then show ?thesis
    by (simp add: nearest_def Let_def S_def k_def y_def)
qed

lemma nearest_small:
  assumes "0 \<le> a" and "a \<le> 2 ^ 1000"
  shows "nearest a < huge"
proof -
  have "nearest a \<le> 2 * a + 1"
    using assms(1) by (rule nearest_le)
  also have "\<dots> \<le> 2 * 2 ^ 1000 + 1"
    using assms(2) by simp
  also have "\<dots> < huge"
    by (simp add: huge_def)
  finally show ?thesis .
qed

lemma fl_nonneg: "0 \<le> x \<Longrightarrow> nearest x < huge \<Longrightarrow> fl x = Num (nearest x)"
  by (simp add: fl_def)

lemma huge_pos: "0 < huge"
  by (simp add: huge_def)

lemma fl_uminus: "fl (- x) = js_neg (fl x)"
  using huge_pos by (cases "x = 0") (auto simp: fl_def Let_def nearest_0)

lemma fl_idem:
  assumes "fl x = Num r"
  shows "fl r = Num r"
proof -
  let ?n = "nearest \<bar>x\<bar>"
  from assms have lt: "?n < huge" and r: "r = (if x \<ge> 0 then ?n else - ?n)"
    by (auto simp: fl_def Let_def split: if_splits)
  have nn: "0 \<le> ?n"
    by (simp add: nearest_nonneg)
  from r nn have ar: "\<bar>r\<bar> = ?n"
    by (simp split: if_splits)
  have idem: "nearest ?n = ?n"
    by (simp add: nearest_idem)
  from r nn have "(if r \<ge> 0 then ?n else - ?n) = r"
    by (auto split: if_splits)
  with lt show ?thesis
    by (simp add: fl_def Let_def ar idem)
qed

lemma fl_grid: "fl x = Num r \<Longrightarrow> \<exists>i. r = of_int i / 2 ^ denorm"
proof -
  assume "fl x = Num r"
  then have r: "r = nearest \<bar>x\<bar> \<or> r = - nearest \<bar>x\<bar>"
    by (auto simp: fl_def Let_def split: if_splits)
  from nearest_grid [of "\<bar>x\<bar>"] obtain i where i: "nearest \<bar>x\<bar> = of_int i / 2 ^ denorm" ..
  from r show ?thesis
  proof
    assume "r = nearest \<bar>x\<bar>"
    with i show ?thesis by blast
  next
    assume "r = - nearest \<bar>x\<bar>"
    with i have "r = of_int (- i) / 2 ^ denorm" by simp
    then show ?thesis ..
  qed
qed

lemma fl_finite:
  assumes "\<bar>x\<bar> \<le> 2 ^ 1000"
  shows "\<exists>r. fl x = Num r \<and> \<bar>r\<bar> \<le> 2 * \<bar>x\<bar> + 1"
proof -
  have lt: "nearest \<bar>x\<bar> < huge"
    using assms by (intro nearest_small) simp_all
  have nn: "0 \<le> nearest \<bar>x\<bar>"
    by (simp add: nearest_nonneg)
  have le: "nearest \<bar>x\<bar> \<le> 2 * \<bar>x\<bar> + 1"
    by (simp add: nearest_le)
  show ?thesis
  proof (cases "0 \<le> x")
    case True
    with lt have "fl x = Num (nearest \<bar>x\<bar>)"
      by (simp add: fl_def Let_def)
    with nn le show ?thesis by simp
  next
    case False
    with lt have "fl x = Num (- nearest \<bar>x\<bar>)"
      by (simp add: fl_def Let_def)
    with nn le show ?thesis by simp
  qed
qed

lemma fl_huge: "huge \<le> x \<Longrightarrow> fl x = PosInf"
proof -
  assume h: "huge \<le> x"
  then have "0 < x"
    by (simp add: huge_def order_less_le_trans [of 0 "2 ^ 1024" x])
  with h nearest_huge [of "\<bar>x\<bar>"] show ?thesis
    by (simp add: fl_def)
qed

lemma fl_certificate:
  assumes "0 \<le> x" and "v \<le> u + denorm" and "u \<le> v + 970"
    and "2 ^ 52 \<le> x * 2 ^ v / 2 ^ u" and "x * 2 ^ v / 2 ^ u < 2 ^ 53"
  shows "fl x = Num (of_int (round_half_even (x * 2 ^ v / 2 ^ u)) * 2 ^ u / 2 ^ v)"
proof -
  let ?m = "round_half_even (x * 2 ^ v / 2 ^ u)"
  have n: "nearest x = of_int ?m * 2 ^ u / 2 ^ v"
    using assms(2,4,5) by (rule nearest_certificate)
  from assms(5) have "x * 2 ^ v / 2 ^ u \<le> of_int (2 ^ 53)"
    by simp
  then have "?m \<le> 2 ^ 53"
    by (rule rhe_le)
  then have m: "real_of_int ?m \<le> 2 ^ 53"
    by (metis of_int_le_iff of_int_numeral of_int_power)
  from assms(3) have "(2::real) ^ u \<le> 2 ^ (v + 970)"
    by (simp add: power_increasing)
  then have "(2::real) ^ u / 2 ^ v \<le> 2 ^ 970"
    by (simp add: power_add pos_divide_le_eq mult.commute)
  with m have "real_of_int ?m * (2 ^ u / 2 ^ v) \<le> 2 ^ 53 * 2 ^ 970"
    by (intro mult_mono) simp_all
  also have "\<dots> < huge"
    by (simp add: huge_def)
  finally have "nearest x < huge"
    by (simp add: n)
  with assms(1) n show ?thesis
    by (simp add: fl_nonneg)
qed

lemma fl_scaled:
  assumes "v \<le> 1074" and "2 ^ 52 \<le> x * 2 ^ v" and "x * 2 ^ v < 2 ^ 53"
  shows "fl x = Num (of_int (round_half_even (x * 2 ^ v)) / 2 ^ v)"
proof -
  have "(0::real) < 2 ^ 52"
    by simp
  with assms(2) have "0 < x * 2 ^ v"
    by linarith
  then have "0 < x"
    by (simp add: zero_less_mult_iff)
  then have "0 \<le> x"
    by simp
  from fl_certificate [OF this, of v 0] assms show ?thesis
    by (simp add: denorm_def)
qed

lemma fl_0: "fl 0 = Num 0"
  using huge_pos by (simp add: fl_def nearest_0)

text \<open>The sign of a difference of two doubles survives rounding.\<close>

lemma difference_sign:
  assumes "a = of_int i / 2 ^ denorm" and "b = of_int j / 2 ^ denorm"
  shows "js_greater (js_sub (Num b) (Num a)) (Num 0) \<longleftrightarrow> a < b"
proof (cases "a < b")
  case True
  with assms have "i < j"
    by (simp add: divide_less_cancel)
  then have "1 \<le> j - i"
    by simp
  then have "1 \<le> real_of_int (j - i)"
    by linarith
  then have "1 / 2 ^ denorm \<le> (real_of_int j - real_of_int i) / 2 ^ denorm"
    by (simp add: divide_right_mono)
  then have ge: "1 / 2 ^ denorm \<le> b - a"
    by (simp add: assms diff_divide_distrib)
  then have "1 / 2 ^ denorm \<le> nearest \<bar>b - a\<bar>"
    using True by (simp add: nearest_pos)
  then have "0 < nearest \<bar>b - a\<bar>"
    by (rule order_less_le_trans [rotated]) simp
  with True have "js_greater (fl (b - a)) (Num 0)"
    by (simp add: fl_def Let_def js_greater_def)
  with True show ?thesis
    by (simp add: js_sub_def)
next
  case False
  have "0 \<le> nearest \<bar>b - a\<bar>"
    by (simp add: nearest_nonneg)
  with False have "\<not> js_greater (fl (b - a)) (Num 0)"
    by (simp add: fl_def Let_def js_greater_def nearest_0)
  with False show ?thesis
    by (simp add: js_sub_def)
qed


lemmas fl_eval = fl_0 fl_uminus
  fl_scaled [of 44] fl_scaled [of 45] fl_scaled [of 46] fl_scaled [of 47] fl_scaled [of 48]
  fl_scaled [of 49] fl_scaled [of 50] fl_scaled [of 51] fl_scaled [of 52] fl_scaled [of 53]
  fl_scaled [of 54] fl_scaled [of 55]

lemma mag_Num: "mag k (Num r) \<longleftrightarrow> \<bar>r\<bar> \<le> 2 ^ k"
  by (simp add: mag_def)

lemma magD: "mag k x \<Longrightarrow> \<exists>r. x = Num r \<and> \<bar>r\<bar> \<le> 2 ^ k"
  by (cases x) (simp_all add: mag_def)

lemma mag_mono:
  assumes "mag j x" and "j \<le> k"
  shows "mag k x"
proof -
  from magD [OF assms(1)] obtain r where r: "x = Num r" "\<bar>r\<bar> \<le> 2 ^ j"
    by blast
  from assms(2) have "(2::real) ^ j \<le> 2 ^ k"
    by (intro power_increasing) simp_all
  with r(2) have "\<bar>r\<bar> \<le> 2 ^ k"
    by linarith
  with r(1) show ?thesis
    by (simp add: mag_Num)
qed

lemma mag_fl:
  assumes "\<bar>x\<bar> \<le> 2 ^ k" and "k \<le> 998"
  shows "mag (k + 2) (fl x)"
proof -
  from assms(2) have "(2::real) ^ k \<le> 2 ^ 1000"
    by (intro power_increasing) simp_all
  with assms(1) have "\<bar>x\<bar> \<le> 2 ^ 1000"
    by linarith
  from fl_finite [OF this] obtain r where r: "fl x = Num r" "\<bar>r\<bar> \<le> 2 * \<bar>x\<bar> + 1"
    by blast
  have "(1::real) \<le> 2 ^ k"
    by simp
  with r(2) assms(1) have "\<bar>r\<bar> \<le> 4 * 2 ^ k"
    by linarith
  then have "\<bar>r\<bar> \<le> 2 ^ (k + 2)"
    by (simp add: power_add)
  with r(1) show ?thesis
    by (simp add: mag_Num)
qed

lemma mag_fl_unit:
  assumes "\<bar>x\<bar> \<le> 1"
  shows "mag 2 (fl x)"
proof -
  from assms have "\<bar>x\<bar> \<le> 2 ^ 0"
    by simp
  then have "mag (0 + 2) (fl x)"
    by (rule mag_fl) simp
  then show ?thesis
    by (simp add: numeral_2_eq_2)
qed

lemma mag_add:
  assumes "mag k x" and "mag k y" and "k \<le> 990"
  shows "mag (k + 3) (js_add x y)"
proof -
  from magD [OF assms(1)] obtain a where a: "x = Num a" "\<bar>a\<bar> \<le> 2 ^ k"
    by blast
  from magD [OF assms(2)] obtain b where b: "y = Num b" "\<bar>b\<bar> \<le> 2 ^ k"
    by blast
  from a(2) b(2) have "\<bar>a + b\<bar> \<le> 2 * 2 ^ k"
    by linarith
  then have "\<bar>a + b\<bar> \<le> 2 ^ (k + 1)"
    by simp
  then have "mag (k + 1 + 2) (fl (a + b))"
    by (rule mag_fl) (use assms(3) in simp)
  moreover have "k + 1 + 2 = k + 3"
    by simp
  ultimately have "mag (k + 3) (fl (a + b))"
    by (simp only:)
  with a(1) b(1) show ?thesis
    by simp
qed

lemma mag_neg: "mag k y \<Longrightarrow> mag k (js_neg y)"
  by (cases y) (simp_all add: mag_def)

lemma mag_sub:
  assumes "mag k x" and "mag k y" and "k \<le> 990"
  shows "mag (k + 3) (js_sub x y)"
  unfolding js_sub_def using assms by (intro mag_add mag_neg)

lemma mag_mul:
  assumes "mag j x" and "mag k y" and "j + k \<le> 990"
  shows "mag (j + k + 2) (js_mul x y)"
proof -
  from magD [OF assms(1)] obtain a where a: "x = Num a" "\<bar>a\<bar> \<le> 2 ^ j"
    by blast
  from magD [OF assms(2)] obtain b where b: "y = Num b" "\<bar>b\<bar> \<le> 2 ^ k"
    by blast
  from a(2) b(2) have "\<bar>a\<bar> * \<bar>b\<bar> \<le> 2 ^ j * 2 ^ k"
    by (intro mult_mono) simp_all
  then have "\<bar>a * b\<bar> \<le> 2 ^ (j + k)"
    by (simp add: abs_mult power_add)
  from mag_fl [OF this] assms(3) a(1) b(1) show ?thesis
    by simp
qed

lemma mag_div20:
  assumes "\<bar>w\<bar> \<le> 2 ^ k" and "k \<le> 998"
  shows "mag (k + 2) (js_div (Num w) (Num 20))"
proof -
  have "\<bar>w / 20\<bar> \<le> \<bar>w\<bar>"
    by simp
  with assms(1) have "\<bar>w / 20\<bar> \<le> 2 ^ k"
    by linarith
  from mag_fl [OF this assms(2)] show ?thesis
    by simp
qed

section \<open>The alignment hint of a choice without weights\<close>

text \<open>
  C10. For a choice that carries no \<^verbatim>\<open>ocean_weights\<close> map,
  \<^verbatim>\<open>calculateChoiceProbability\<close> returns the raw value 0.5, below the clamp band [10,90],
  and \<^verbatim>\<open>getChoiceAlignment\<close> returns "against your nature".
\<close>

theorem getChoiceAlignment_no_weights:
  "ocean_weights ch = None \<Longrightarrow>
     calculateChoiceProbability p ch = Num 0.5
     \<and> js_less (calculateChoiceProbability p ch) (Num 10)
     \<and> getChoiceAlignment p ch = ''against your nature''"
  by (simp add: getChoiceAlignment_def calculateChoiceProbability_def js_greater_def)

theorem getChoiceAlignment_no_weights_witness:
  "ocean_weights unweighted_choice = None
   \<and> calculateChoiceProbability initial_personality unweighted_choice = Num 0.5
   \<and> getChoiceAlignment initial_personality unweighted_choice = ''against your nature''"
proof -
  have h: "ocean_weights unweighted_choice = None"
    by (simp add: unweighted_choice_def)
  show ?thesis
    using h getChoiceAlignment_no_weights [OF h, of initial_personality] by simp
qed

section \<open>Frame and effect of applyWeights\<close>












section \<open>The probability of a choice\<close>

lemma clamp_cases:
  "js_max (Num 10) (js_min (Num 90) a) = NaN \<and> a = NaN
   \<or> (\<exists>r. js_max (Num 10) (js_min (Num 90) a) = Num r \<and> 10 \<le> r \<and> r \<le> 90 \<and> a \<noteq> NaN)"
  by (cases a) auto

lemma clamp_Num:
  "js_max (Num 10) (js_min (Num 90) (Num r)) = Num (max 10 (min 90 r))"
  by auto

lemma js_add_stable: "js_add x y = Num r \<Longrightarrow> fl r = Num r"
proof (cases x)
  case (Num a)
  assume r: "js_add x y = Num r"
  show ?thesis
  proof (cases y)
    case (Num b)
    with \<open>x = Num a\<close> r have "fl (a + b) = Num r"
      by simp
    then show ?thesis
      by (rule fl_idem)
  qed (use \<open>x = Num a\<close> r in simp_all)
qed (cases y; simp)+

lemma fl_50: "fl 50 = Num 50"
  by (simp add: fl_eval round_half_even_def)

lemma zero_weight_contribution:
  assumes "0 \<le> tv" and "tv \<le> 100"
  shows "js_mul (js_sub (Num 50) (Num tv)) (js_div (Num \<bar>0\<bar>) (Num 20)) = Num 0"
proof -
  from assms have "\<bar>50 - tv\<bar> \<le> 50"
    by simp
  also have "(50::real) \<le> 2 ^ 1000"
    by simp
  finally have "\<bar>50 - tv\<bar> \<le> 2 ^ 1000" .
  from fl_finite [OF this] obtain d where "fl (50 - tv) = Num d"
    by blast
  then show ?thesis
    by (simp add: js_sub_def fl_0)
qed

lemma alignment_loop_spec:
  assumes "\<forall>t. 0 \<le> ocean p t \<and> ocean p t \<le> 100" and "\<forall>r. a = Num r \<longrightarrow> fl r = Num r"
  shows "foldl (alignment_step p) a ws = spec_add_contributions p a ws"
  using assms(2)
proof (induction ws arbitrary: a)
  case Nil
  show ?case by simp
next
  case (Cons kv ws)
  obtain k w where kv: "kv = (k, w)"
    by (cases kv)
  show ?case
  proof (cases "trait_of_key k")
    case None
    with Cons kv show ?thesis
      by (simp add: alignment_step_def)
  next
    case (Some t)
    show ?thesis
    proof (cases "w = 0")
      case True
      from assms(1) have z: "js_mul (js_sub (Num 50) (Num (ocean p t))) (js_div (Num \<bar>0\<bar>) (Num 20)) = Num 0"
        by (intro zero_weight_contribution) simp_all
      have "js_add a (Num 0) = a"
      proof (cases a)
        case (Num r)
        with Cons.prems show ?thesis by simp
      qed simp_all
      with z True Some kv have "alignment_step p a kv = a"
        by (simp add: alignment_step_def)
      with Cons True Some kv show ?thesis
        by simp
    next
      case False
      let ?a = "js_add a (spec_contribution p t w)"
      have st: "\<forall>r. ?a = Num r \<longrightarrow> fl r = Num r"
        using js_add_stable by blast
      from False Some kv have "alignment_step p a kv = ?a"
        by (simp add: alignment_step_def spec_contribution_def Let_def)
      with Cons.IH [OF st] False Some kv show ?thesis
        by simp
    qed
  qed
qed

lemma calculateChoiceProbability_spec:
  assumes "\<forall>t. 0 \<le> ocean p t \<and> ocean p t \<le> 100" and "ocean_weights ch = Some ws"
  shows "calculateChoiceProbability p ch
           = js_max (Num 10) (js_min (Num 90) (spec_alignment p ws (stress_delta ch)))"
proof -
  have "\<forall>r. Num 50 = Num r \<longrightarrow> fl r = Num r"
    by (simp add: fl_50)
  from alignment_loop_spec [OF assms(1) this, of ws] assms(2) show ?thesis
    by (cases "stress_delta ch")
       (simp_all add: calculateChoiceProbability_def spec_alignment_def spec_stress_adjustment_def
          Let_def)
qed

lemma contribution_mag:
  assumes "0 \<le> ocean p t" and "ocean p t \<le> 100" and "\<bar>w\<bar> \<le> 2 ^ 900"
  shows "mag 912 (spec_contribution p t w)"
proof -
  from assms(1,2) have "\<bar>ocean p t - 50\<bar> \<le> 2 ^ 6" "\<bar>50 - ocean p t\<bar> \<le> 2 ^ 6"
    by simp_all
  then have d: "mag 8 (js_sub (Num (ocean p t)) (Num 50))" "mag 8 (js_sub (Num 50) (Num (ocean p t)))"
    using mag_fl [of "ocean p t - 50" 6] mag_fl [of "50 - ocean p t" 6]
    by (simp_all add: js_sub_def)
  from assms(3) have q: "mag 902 (js_div (Num w) (Num 20))" "mag 902 (js_div (Num \<bar>w\<bar>) (Num 20))"
    using mag_div20 [of w 900] mag_div20 [of "\<bar>w\<bar>" 900] by simp_all
  show ?thesis
  proof (cases "w > 0")
    case True
    with mag_mul [OF d(1) q(1)] show ?thesis
      by (simp add: spec_contribution_def)
  next
    case False
    with mag_mul [OF d(2) q(2)] show ?thesis
      by (simp add: spec_contribution_def)
  qed
qed

lemma contributions_mag:
  assumes "\<forall>t. 0 \<le> ocean p t \<and> ocean p t \<le> 100"
  shows "\<forall>kv \<in> set ws. \<bar>snd kv\<bar> \<le> 2 ^ 900 \<Longrightarrow> mag K a \<Longrightarrow> 912 \<le> K \<Longrightarrow>
         K + 3 * length (filter (\<lambda>kv. trait_of_key (fst kv) \<noteq> None) ws) \<le> 990 \<Longrightarrow>
         mag (K + 3 * length (filter (\<lambda>kv. trait_of_key (fst kv) \<noteq> None) ws))
           (spec_add_contributions p a ws)"
proof (induction ws arbitrary: a K)
  case Nil
  then show ?case by simp
next
  case (Cons kv ws)
  obtain k w where kv: "kv = (k, w)"
    by (cases kv)
  let ?n = "length (filter (\<lambda>kv. trait_of_key (fst kv) \<noteq> None) ws)"
  from Cons.prems(1) have ws: "\<forall>kv \<in> set ws. \<bar>snd kv\<bar> \<le> 2 ^ 900" and w: "\<bar>w\<bar> \<le> 2 ^ 900"
    by (simp_all add: kv)
  show ?case
  proof (cases "trait_of_key k")
    case None
    with Cons.IH [OF ws Cons.prems(2,3)] Cons.prems(4) kv show ?thesis
      by simp
  next
    case (Some t)
    with Cons.prems(4) kv have n: "K + 3 + 3 * ?n \<le> 990"
      by simp
    show ?thesis
    proof (cases "w = 0")
      case True
      from n have "K + 3 * ?n \<le> 990"
        by simp
      from Cons.IH [OF ws Cons.prems(2,3) this]
      have "mag (K + 3 * ?n) (spec_add_contributions p a ws)" .
      then have "mag (K + 3 + 3 * ?n) (spec_add_contributions p a ws)"
        by (rule mag_mono) simp
      with True Some kv show ?thesis
        by (simp add: add.assoc)
    next
      case False
      from assms w have "mag 912 (spec_contribution p t w)"
        by (intro contribution_mag) simp_all
      then have "mag K (spec_contribution p t w)"
        using Cons.prems(3) by (rule mag_mono)
      with Cons.prems(2) have "mag (K + 3) (js_add a (spec_contribution p t w))"
        using n by (intro mag_add) simp_all
      from Cons.IH [OF ws this _ n] Cons.prems(3)
      have "mag (K + 3 + 3 * ?n) (spec_add_contributions p (js_add a (spec_contribution p t w)) ws)"
        by simp
      with False Some kv show ?thesis
        by (simp add: add.assoc)
    qed
  qed
qed

lemma recognized_count:
  assumes "distinct (map fst ws)"
  shows "length (filter (\<lambda>kv. trait_of_key (fst kv) \<noteq> None) ws) \<le> 5"
proof -
  let ?ks = "map fst (filter (\<lambda>kv. trait_of_key (fst kv) \<noteq> None) ws)"
  from assms have d: "distinct ?ks"
    by (rule distinct_map_filter)
  have "set ?ks \<subseteq> {''O'', ''C'', ''E'', ''A'', ''N''}"
    by (auto simp: trait_of_key_def split: if_splits)
  then have "card (set ?ks) \<le> card {''O'', ''C'', ''E'', ''A'', ''N''}"
    by (intro card_mono) simp_all
  also have "\<dots> \<le> 5"
    by (simp add: card_insert_if)
  finally have "card (set ?ks) \<le> 5" .
  with distinct_card [OF d] show ?thesis
    by simp
qed

lemma alignment_finite:
  assumes "\<forall>t. 0 \<le> ocean p t \<and> ocean p t \<le> 100" and "0 \<le> stress p" and "stress p \<le> 100"
    and "distinct (map fst ws)" and "\<forall>kv \<in> set ws. \<bar>snd kv\<bar> \<le> 2 ^ 900"
  shows "mag 930 (spec_alignment p ws sd)"
proof -
  let ?n = "length (filter (\<lambda>kv. trait_of_key (fst kv) \<noteq> None) ws)"
  from recognized_count [OF assms(4)] have n: "?n \<le> 5" .
  have "mag 912 (Num 50)"
    by (simp add: mag_Num order_trans [of 50 "2 ^ 6" "2 ^ 912"])
  from contributions_mag [OF assms(1,5) this] n
  have "mag (912 + 3 * ?n) (spec_add_contributions p (Num 50) ws)"
    by simp
  then have a: "mag 927 (spec_add_contributions p (Num 50) ws)"
    by (rule mag_mono) (use n in simp)
  have l: "mag 2 (fl 0.2)" "mag 2 (fl 0.15)"
    by (rule mag_fl_unit, simp)+
  from assms(2,3) have "mag 7 (Num (stress p))"
    by (simp add: mag_Num)
  from mag_mul [OF this l(1)] mag_mul [OF this l(2)]
  have m: "mag 11 (js_mul (Num (stress p)) (fl 0.2))" "mag 11 (js_mul (Num (stress p)) (fl 0.15))"
    by simp_all
  have s: "mag 927 (js_mul (Num (stress p)) (fl 0.2))"
    "mag 927 (js_mul (Num (stress p)) (fl 0.15))"
    by (rule mag_mono [OF m(1)], simp, rule mag_mono [OF m(2)], simp)
  from mag_add [OF a s(1)] mag_sub [OF a s(2)] mag_mono [OF a, of 930]
  show ?thesis
    by (cases sd) (simp_all add: spec_alignment_def spec_stress_adjustment_def)
qed

lemma calculateChoiceProbability_clamped:
  "ocean_weights ch = Some ws \<Longrightarrow>
     calculateChoiceProbability p ch = NaN
     \<or> (\<exists>r. calculateChoiceProbability p ch = Num r \<and> 10 \<le> r \<and> r \<le> 90)"
  using clamp_cases by (auto simp: calculateChoiceProbability_def Let_def)

text \<open>
  C3, as stated, fails on weights that overflow: with C and E at 100 and the weights
  \<open>5 * 2 ^ 1021\<close> (about 1.12e308) on C and its negation on E, the two contributions are
  the infinities of opposite sign, their sum is NaN, and \<^verbatim>\<open>Math.min\<close> and
  \<^verbatim>\<open>Math.max\<close> return NaN, which is not within [10,90].
\<close>

theorem calculateChoiceProbability_overflow_counterexample:
  "ocean_weights overflow_choice = Some [(''C'', overflow_weight), (''E'', - overflow_weight)]
   \<and> overflow_weight = 5 * 2 ^ 1021
   \<and> ocean overflow_personality TraitC = 100 \<and> ocean overflow_personality TraitE = 100
   \<and> calculateChoiceProbability overflow_personality overflow_choice = NaN"
proof -
  have w: "overflow_weight / 20 = 2 ^ 1019" and pos: "0 < overflow_weight"
    by (simp_all add: overflow_weight_def)
  have "fl (2 ^ 1019) = Num (of_int (round_half_even (2 ^ 1019 * 2 ^ 0 / 2 ^ 967)) * 2 ^ 967 / 2 ^ 0)"
    by (rule fl_certificate) (simp_all add: denorm_def)
  moreover have "(2 ^ 1019 * 2 ^ 0 / 2 ^ 967 :: real) = of_int (2 ^ 52)"
    by simp
  ultimately have q: "fl (2 ^ 1019) = Num (2 ^ 1019)"
    by (simp only: rhe_int) simp
  have "huge \<le> 50 * 2 ^ 1019"
    by (simp add: huge_def)
  then have up: "fl (50 * 2 ^ 1019) = PosInf"
    by (rule fl_huge)
  have "fl (- (50 * 2 ^ 1019)) = js_neg (fl (50 * 2 ^ 1019))"
    by (rule fl_uminus)
  with up have down: "fl (- (50 * 2 ^ 1019)) = NegInf"
    by simp
  have d: "js_div (Num overflow_weight) (Num 20) = Num (2 ^ 1019)"
    using q by (simp only: js_div.simps w) simp
  have s1: "js_sub (Num 100) (Num 50) = Num 50"
    by (simp add: js_sub_def fl_eval round_half_even_def)
  have s2: "js_sub (Num 50) (Num 100) = Num (- 50)"
    by (simp add: js_sub_def fl_eval round_half_even_def)
  have c1: "js_mul (js_sub (Num 100) (Num 50)) (js_div (Num overflow_weight) (Num 20)) = PosInf"
    unfolding s1 d using up by simp
  have c2: "js_mul (js_sub (Num 50) (Num 100)) (js_div (Num overflow_weight) (Num 20)) = NegInf"
    unfolding s2 d using down by simp
  have "foldl (alignment_step overflow_personality) (Num 50)
          [(''C'', overflow_weight), (''E'', - overflow_weight)] = NaN"
    using pos
    by (simp add: alignment_step_def trait_of_key_def overflow_personality_def c1 c2
          del: js_div.simps js_mul.simps)
  then show ?thesis
    by (simp add: calculateChoiceProbability_def overflow_choice_def overflow_personality_def
          overflow_weight_def del: js_div.simps js_mul.simps)
qed

text \<open>
  C3, amended. \<^verbatim>\<open>calculateChoiceProbability\<close> returns 0.5 for a choice without an
  \<^verbatim>\<open>ocean_weights\<close> map. Otherwise its result is NaN or lies in [10,90]. With traits
  within [0,100] it is \<^verbatim>\<open>Math.max(10, Math.min(90, alignment))\<close>, where the alignment
  starts at 50, adds in turn \<open>(traitValue - 50) * (weight / 20)\<close> for a recognized
  dimension of positive weight and \<open>(50 - traitValue) * (|weight| / 20)\<close> for one of
  negative weight, then adds \<open>stress * 0.2\<close> when the stress delta is negative and
  subtracts \<open>stress * 0.15\<close> when it exceeds 10, every operation in double arithmetic; the
  result is NaN exactly when this alignment is NaN. With stress within [0,100] besides and
  weights of magnitude at most \<open>2 ^ 900\<close> in a weight map (distinct keys), the result lies
  in [10,90].
\<close>

theorem calculateChoiceProbability_formula:
  "(ocean_weights ch = None \<longrightarrow> calculateChoiceProbability p ch = Num 0.5)
   \<and> (\<forall>ws. ocean_weights ch = Some ws \<longrightarrow>
         (calculateChoiceProbability p ch = NaN
            \<or> (\<exists>r. calculateChoiceProbability p ch = Num r \<and> 10 \<le> r \<and> r \<le> 90))
         \<and> ((\<forall>t. 0 \<le> ocean p t \<and> ocean p t \<le> 100) \<longrightarrow>
               calculateChoiceProbability p ch
                 = js_max (Num 10) (js_min (Num 90) (spec_alignment p ws (stress_delta ch)))
               \<and> (calculateChoiceProbability p ch = NaN
                    \<longleftrightarrow> spec_alignment p ws (stress_delta ch) = NaN))
         \<and> ((\<forall>t. 0 \<le> ocean p t \<and> ocean p t \<le> 100) \<and> 0 \<le> stress p \<and> stress p \<le> 100
               \<and> distinct (map fst ws) \<and> (\<forall>kv \<in> set ws. \<bar>snd kv\<bar> \<le> 2 ^ 900) \<longrightarrow>
               (\<exists>r. calculateChoiceProbability p ch = Num r \<and> 10 \<le> r \<and> r \<le> 90)))"
proof (intro conjI allI impI)
  assume "ocean_weights ch = None"
  then show "calculateChoiceProbability p ch = Num 0.5"
    by (simp add: calculateChoiceProbability_def)
next
  fix ws
  assume ws: "ocean_weights ch = Some ws"
  then show "calculateChoiceProbability p ch = NaN
      \<or> (\<exists>r. calculateChoiceProbability p ch = Num r \<and> 10 \<le> r \<and> r \<le> 90)"
    by (rule calculateChoiceProbability_clamped)
  {
    assume tr: "\<forall>t. 0 \<le> ocean p t \<and> ocean p t \<le> 100"
    from calculateChoiceProbability_spec [OF tr ws]
    show eq: "calculateChoiceProbability p ch
                = js_max (Num 10) (js_min (Num 90) (spec_alignment p ws (stress_delta ch)))" .
    show "calculateChoiceProbability p ch = NaN
            \<longleftrightarrow> spec_alignment p ws (stress_delta ch) = NaN"
      unfolding eq using clamp_cases [of "spec_alignment p ws (stress_delta ch)"] by auto
  }
  {
    assume a: "(\<forall>t. 0 \<le> ocean p t \<and> ocean p t \<le> 100) \<and> 0 \<le> stress p \<and> stress p \<le> 100
               \<and> distinct (map fst ws) \<and> (\<forall>kv \<in> set ws. \<bar>snd kv\<bar> \<le> 2 ^ 900)"
    then have "mag 930 (spec_alignment p ws (stress_delta ch))"
      by (intro alignment_finite) simp_all
    from magD [OF this] obtain r where r: "spec_alignment p ws (stress_delta ch) = Num r"
      by blast
    from a ws have "calculateChoiceProbability p ch
                = js_max (Num 10) (js_min (Num 90) (spec_alignment p ws (stress_delta ch)))"
      by (intro calculateChoiceProbability_spec) simp_all
    then have "calculateChoiceProbability p ch = Num (max 10 (min 90 r))"
      by (simp only: r clamp_Num)
    then show "\<exists>r. calculateChoiceProbability p ch = Num r \<and> 10 \<le> r \<and> r \<le> 90"
      by simp
  }
qed

theorem calculateChoiceProbability_formula_witness:
  "ocean_weights unweighted_choice = None
   \<and> calculateChoiceProbability example_personality unweighted_choice = Num 0.5
   \<and> ocean_weights weighted_choice = Some [(''C'', 15), (''E'', - 10), (''mood'', 4)]
   \<and> ocean example_personality TraitC = 40 \<and> ocean example_personality TraitE = 70
   \<and> stress example_personality = 30
   \<and> distinct (map fst [(''C'', 15::real), (''E'', - 10), (''mood'', 4)])
   \<and> spec_alignment example_personality [(''C'', 15), (''E'', - 10), (''mood'', 4)]
        (stress_delta weighted_choice) = Num 38.5
   \<and> calculateChoiceProbability example_personality weighted_choice = Num 38.5"
proof -
  let ?ws = "[(''C'', 15::real), (''E'', - 10), (''mood'', 4)]"
  have n: "ocean_weights unweighted_choice = None"
    by (simp add: unweighted_choice_def)
  have w: "ocean_weights weighted_choice = Some ?ws"
    by (simp add: weighted_choice_def)
  have tr: "\<forall>t. 0 \<le> ocean example_personality t \<and> ocean example_personality t \<le> 100"
    by (simp add: example_personality_def initial_personality_def)
  have o: "ocean example_personality TraitC = 40" "ocean example_personality TraitE = 70"
    "stress example_personality = 30"
    by (simp_all add: example_personality_def initial_personality_def)
  have d: "distinct (map fst ?ws)"
    by simp
  have v: "spec_alignment example_personality ?ws (stress_delta weighted_choice) = Num 38.5"
    by (simp add: spec_alignment_def spec_contribution_def spec_stress_adjustment_def
          trait_of_key_def weighted_choice_def o js_sub_def fl_eval round_half_even_def)
  note th = calculateChoiceProbability_formula [of unweighted_choice example_personality]
  note th2 = calculateChoiceProbability_formula [of weighted_choice example_personality]
  from th n have 1: "calculateChoiceProbability example_personality unweighted_choice = Num 0.5"
    by blast
  from th2 w tr have "calculateChoiceProbability example_personality weighted_choice
      = js_max (Num 10) (js_min (Num 90)
          (spec_alignment example_personality ?ws (stress_delta weighted_choice)))"
    by blast
  then have 2: "calculateChoiceProbability example_personality weighted_choice = Num 38.5"
    by (simp add: v)
  from n w o d v 1 2 show ?thesis by blast
qed

section \<open>The Enneagram type\<close>

lemma finite_doubleD: "finite_double x \<Longrightarrow> \<exists>r. x = Num r \<and> fl r = Num r"
  by (cases x) (simp_all add: finite_double_def)

lemma finite_double_less:
  "finite_double x \<Longrightarrow> finite_double y \<Longrightarrow> js_less x y \<longleftrightarrow> js_value x < js_value y"
  by (auto dest!: finite_doubleD)

lemma finite_double_eq:
  "finite_double x \<Longrightarrow> finite_double y \<Longrightarrow> x = y \<longleftrightarrow> js_value x = js_value y"
  by (auto dest!: finite_doubleD)

lemma by_score_desc_sign:
  assumes "finite_double (snd x)" and "finite_double (snd y)"
  shows "js_greater (by_score_desc x y) (Num 0) \<longleftrightarrow> js_value (snd x) < js_value (snd y)"
proof -
  from finite_doubleD [OF assms(1)] obtain a where a: "snd x = Num a" "fl a = Num a"
    by blast
  from finite_doubleD [OF assms(2)] obtain b where b: "snd y = Num b" "fl b = Num b"
    by blast
  from fl_grid [OF a(2)] obtain i where i: "a = of_int i / 2 ^ denorm" ..
  from fl_grid [OF b(2)] obtain j where j: "b = of_int j / 2 ^ denorm" ..
  from difference_sign [OF i j] a(1) b(1) show ?thesis
    by (simp add: by_score_desc_def)
qed

lemma insert_sorted_nonempty: "insert_sorted cmp x ys \<noteq> []"
  by (cases ys) simp_all

lemma hd_insert_sorted:
  assumes "finite_double (snd x)" and "ys \<noteq> [] \<longrightarrow> finite_double (snd (hd ys))"
  shows "hd (insert_sorted by_score_desc x ys)
           = (if ys = [] \<or> js_value (snd (hd ys)) \<le> js_value (snd x) then x else hd ys)"
proof (cases ys)
  case Nil
  then show ?thesis by simp
next
  case (Cons y zs)
  with assms by_score_desc_sign [of x y] show ?thesis
    by (simp add: not_less)
qed

lemma js_sort_Cons: "js_sort cmp (x # xs) = insert_sorted cmp x (js_sort cmp xs)"
  by (simp add: js_sort_def)

lemma js_sort_nonempty: "xs \<noteq> [] \<Longrightarrow> js_sort cmp xs \<noteq> []"
  by (cases xs) (simp_all add: js_sort_Cons insert_sorted_nonempty)

lemma hd_insert_sorted_mem:
  "hd (insert_sorted cmp x ys) = x \<or> (ys \<noteq> [] \<and> hd (insert_sorted cmp x ys) = hd ys)"
  by (cases ys) simp_all

lemma hd_js_sort_mem: "xs \<noteq> [] \<Longrightarrow> hd (js_sort cmp xs) \<in> set xs"
proof (induction xs)
  case Nil
  then show ?case by simp
next
  case (Cons x xs)
  show ?case
  proof (cases "xs = []")
    case True
    then show ?thesis by (simp add: js_sort_def)
  next
    case False
    with Cons.IH have "hd (js_sort cmp xs) \<in> set xs"
      by simp
    with hd_insert_sorted_mem [of cmp x "js_sort cmp xs"] show ?thesis
      by (auto simp: js_sort_Cons)
  qed
qed

lemma hd_js_sort_Cons:
  assumes "\<forall>z \<in> set (x # xs). finite_double (snd z)"
  shows "hd (js_sort by_score_desc (x # xs)) =
     (if xs = [] \<or> js_value (snd (hd (js_sort by_score_desc xs))) \<le> js_value (snd x) then x
      else hd (js_sort by_score_desc xs))"
proof (cases "xs = []")
  case True
  then show ?thesis by (simp add: js_sort_def)
next
  case False
  then have ne: "js_sort by_score_desc xs \<noteq> []"
    by (rule js_sort_nonempty)
  from False assms have "finite_double (snd (hd (js_sort by_score_desc xs)))"
    using hd_js_sort_mem [of xs by_score_desc] by simp
  with assms hd_insert_sorted [of x "js_sort by_score_desc xs"] False ne show ?thesis
    by (simp add: js_sort_Cons)
qed

lemma hd_js_sort_max:
  "xs \<noteq> [] \<Longrightarrow> \<forall>z \<in> set xs. finite_double (snd z) \<Longrightarrow>
     \<forall>y \<in> set xs. js_value (snd y) \<le> js_value (snd (hd (js_sort by_score_desc xs)))"
proof (induction xs)
  case Nil
  then show ?case by simp
next
  case (Cons x xs)
  note h = hd_js_sort_Cons [OF Cons.prems(2)]
  show ?case
  proof (cases "xs = []")
    case True
    with h show ?thesis by simp
  next
    case False
    with Cons.IH Cons.prems(2)
    have "\<forall>y \<in> set xs. js_value (snd y) \<le> js_value (snd (hd (js_sort by_score_desc xs)))"
      by simp
    with h False show ?thesis
      by (auto intro: order_trans)
  qed
qed

lemma hd_js_sort_first:
  fixes xs :: "(nat \<times> js_number) list"
  shows "sorted_wrt (\<lambda>a b. fst a < fst b) xs \<Longrightarrow> \<forall>z \<in> set xs. finite_double (snd z) \<Longrightarrow>
     y \<in> set xs \<Longrightarrow> js_value (snd y) = js_value (snd (hd (js_sort by_score_desc xs))) \<Longrightarrow>
     fst (hd (js_sort by_score_desc xs)) \<le> fst y"
proof (induction xs)
  case Nil
  then show ?case by simp
next
  case (Cons x xs)
  note h = hd_js_sort_Cons [OF Cons.prems(2)]
  show ?case
  proof (cases "xs = [] \<or> js_value (snd (hd (js_sort by_score_desc xs))) \<le> js_value (snd x)")
    case True
    with h have "hd (js_sort by_score_desc (x # xs)) = x"
      by simp
    with Cons.prems(1,3) show ?thesis
      by (auto simp: less_imp_le)
  next
    case False
    with h have e: "hd (js_sort by_score_desc (x # xs)) = hd (js_sort by_score_desc xs)"
      by simp
    with Cons.prems(4) False have "y \<noteq> x"
      by auto
    with Cons.prems(3) have "y \<in> set xs"
      by simp
    with Cons.IH Cons.prems(1,2,4) e show ?thesis
      by simp
  qed
qed

lemma js_mul_commute: "js_mul x y = js_mul y x"
  by (cases x; cases y) (simp_all add: mult.commute)

lemma types_upt: "[1, 2, 3, 4, 5, 6, 7, 8, 9] = [1..<10]"
  by (simp add: upt_rec)

lemma enneagram_scores_spec:
  "enneagram_scores p =
     map (\<lambda>t. (t, spec_enneagram_score (ocean p) t)) [1, 2, 3, 4, 5, 6, 7, 8, 9]"
  by (simp add: enneagram_scores_def spec_enneagram_score_def Let_def
        js_mul_commute [of "Num (ocean p _)"] js_mul_commute [of "js_sub _ _"]
        del: js_mul.simps js_add.simps)

lemma enneagram_scores_set:
  "y \<in> set (enneagram_scores p) \<longleftrightarrow>
     (1 \<le> fst y \<and> fst y \<le> 9 \<and> snd y = spec_enneagram_score (ocean p) (fst y))"
proof -
  have "set (enneagram_scores p) = (\<lambda>t. (t, spec_enneagram_score (ocean p) t)) ` {1..<10}"
    unfolding enneagram_scores_spec types_upt by simp
  then show ?thesis
    by (cases y) auto
qed

lemma enneagram_scores_ascending:
  "sorted_wrt (\<lambda>a b. fst a < fst b) (enneagram_scores p)"
  unfolding enneagram_scores_spec by simp

lemma enneagram_scores_nonempty: "enneagram_scores p \<noteq> []"
  by (simp add: enneagram_scores_spec)

lemma deriveEnneagram_hd:
  "deriveEnneagram p =
     Inr (fst (hd (js_sort by_score_desc (enneagram_scores p))),
          enneagram_descriptions (fst (hd (js_sort by_score_desc (enneagram_scores p)))))"
  using js_sort_nonempty [OF enneagram_scores_nonempty, of by_score_desc p]
  by (cases "js_sort by_score_desc (enneagram_scores p)") (simp_all add: deriveEnneagram_def)

lemma finite_double_add: "mag k (js_add x y) \<Longrightarrow> finite_double (js_add x y)"
  using magD [of k "js_add x y"] js_add_stable [of x y]
  by (auto simp: finite_double_def simp del: js_add.simps)

lemma score_add:
  assumes "mag 10 c1" "mag 10 x" "mag 10 c2" "mag 10 y" "mag 10 c3" "mag 10 z"
  shows "finite_double (js_add (js_add (js_mul c1 x) (js_mul c2 y)) (js_mul c3 z))"
proof -
  from mag_mul [OF assms(1,2)] mag_mul [OF assms(3,4)] mag_mul [OF assms(5,6)]
  have m: "mag 22 (js_mul c1 x)" "mag 22 (js_mul c2 y)" "mag 22 (js_mul c3 z)"
    by simp_all
  from mag_add [OF m(1,2)] have "mag 25 (js_add (js_mul c1 x) (js_mul c2 y))"
    by simp
  moreover from m(3) have "mag 25 (js_mul c3 z)"
    by (rule mag_mono) simp
  ultimately have "mag (25 + 3) (js_add (js_add (js_mul c1 x) (js_mul c2 y)) (js_mul c3 z))"
    by (rule mag_add) simp
  then show ?thesis
    by (rule finite_double_add)
qed

lemma score_sub:
  assumes "mag 10 c1" "mag 10 x" "mag 10 c2" "mag 10 y" "mag 10 c3" "mag 10 z"
  shows "finite_double (js_sub (js_add (js_mul c1 x) (js_mul c2 y)) (js_mul c3 z))"
proof -
  from mag_mul [OF assms(1,2)] mag_mul [OF assms(3,4)] mag_mul [OF assms(5,6)]
  have m: "mag 22 (js_mul c1 x)" "mag 22 (js_mul c2 y)" "mag 22 (js_mul c3 z)"
    by simp_all
  from mag_add [OF m(1,2)] have "mag 25 (js_add (js_mul c1 x) (js_mul c2 y))"
    by simp
  moreover from m(3) have "mag 25 (js_neg (js_mul c3 z))"
    by (intro mag_neg mag_mono [of 22 _ 25]) simp_all
  ultimately have "mag (25 + 3) (js_add (js_add (js_mul c1 x) (js_mul c2 y)) (js_neg (js_mul c3 z)))"
    by (rule mag_add) simp
  then show ?thesis
    unfolding js_sub_def by (rule finite_double_add)
qed

lemma trait_mag:
  assumes "0 \<le> v" and "v \<le> 100"
  shows "mag 10 (Num v)" and "mag 10 (js_sub (Num 100) (Num v))"
proof -
  from assms show "mag 10 (Num v)"
    by (simp add: mag_Num)
  from assms have "\<bar>100 - v\<bar> \<le> 2 ^ 7"
    by simp
  then have "mag (7 + 2) (fl (100 - v))"
    by (rule mag_fl) simp
  then have "mag 10 (fl (100 - v))"
    by (rule mag_mono) simp
  then show "mag 10 (js_sub (Num 100) (Num v))"
    by (simp add: js_sub_def)
qed

lemma literal_mag: "mag 10 (Num 1.5)" "mag 10 (Num 0.5)" "mag 10 (Num 1.0)" "mag 10 (fl 0.3)"
proof -
  show "mag 10 (Num 1.5)" "mag 10 (Num 0.5)" "mag 10 (Num 1.0)"
    by (simp_all add: mag_Num)
  have "mag 2 (fl 0.3)"
    by (rule mag_fl_unit) simp
  then show "mag 10 (fl 0.3)"
    by (rule mag_mono) simp
qed

lemma finite_double_if:
  "finite_double a \<Longrightarrow> finite_double b \<Longrightarrow> finite_double (if c then a else b)"
  by simp

lemma spec_enneagram_score_finite:
  assumes "\<forall>t. 0 \<le> v t \<and> v t \<le> 100"
  shows "finite_double (spec_enneagram_score v u)"
proof -
  have t: "mag 10 (Num (v t))" "mag 10 (js_sub (Num 100) (Num (v t)))" for t
    using assms by (simp_all add: trait_mag)
  show ?thesis
    unfolding spec_enneagram_score_def
    by (intro finite_double_if score_add score_sub literal_mag t)
qed

text \<open>The type returned has the greatest computed score and, among the types with that
  score, the least identifier.\<close>

lemma deriveEnneagram_first_maximum:
  assumes "\<forall>t. 0 \<le> ocean p t \<and> ocean p t \<le> 100"
  shows "\<exists>t. deriveEnneagram p = Inr (t, enneagram_descriptions t)
          \<and> 1 \<le> t \<and> t \<le> 9
          \<and> (\<forall>u. 1 \<le> u \<and> u \<le> 9 \<longrightarrow>
                \<not> js_less (spec_enneagram_score (ocean p) t) (spec_enneagram_score (ocean p) u)
                \<and> (spec_enneagram_score (ocean p) u = spec_enneagram_score (ocean p) t
                     \<longrightarrow> t \<le> u))"
proof -
  let ?h = "hd (js_sort by_score_desc (enneagram_scores p))"
  let ?sc = "spec_enneagram_score (ocean p)"
  have fin: "finite_double (?sc u)" for u
    using assms by (rule spec_enneagram_score_finite)
  then have all: "\<forall>z \<in> set (enneagram_scores p). finite_double (snd z)"
    by (simp add: enneagram_scores_set)
  have hmem: "?h \<in> set (enneagram_scores p)"
    by (rule hd_js_sort_mem) (rule enneagram_scores_nonempty)
  then have hr: "1 \<le> fst ?h" "fst ?h \<le> 9" "snd ?h = ?sc (fst ?h)"
    by (simp_all add: enneagram_scores_set)
  note mx = hd_js_sort_max [OF enneagram_scores_nonempty all]
  have "\<not> js_less (?sc (fst ?h)) (?sc u) \<and> (?sc u = ?sc (fst ?h) \<longrightarrow> fst ?h \<le> u)"
    if u: "1 \<le> u \<and> u \<le> 9" for u
  proof -
    from u have umem: "(u, ?sc u) \<in> set (enneagram_scores p)"
      by (simp add: enneagram_scores_set)
    with mx have "js_value (snd (u, ?sc u)) \<le> js_value (snd ?h)"
      by blast
    then have le: "js_value (?sc u) \<le> js_value (?sc (fst ?h))"
      using hr(3) by simp
    then have 1: "\<not> js_less (?sc (fst ?h)) (?sc u)"
      by (simp add: finite_double_less [OF fin fin])
    have "fst ?h \<le> u" if "?sc u = ?sc (fst ?h)"
      using hd_js_sort_first [OF enneagram_scores_ascending all umem] that hr(3) by simp
    with 1 show ?thesis by blast
  qed
  with hr(1,2) deriveEnneagram_hd [of p] show ?thesis
    by blast
qed

lemma type_cases: "1 \<le> t \<Longrightarrow> t \<le> 9 \<Longrightarrow> t \<in> {1, 2, 3, 4, 5, 6, 7, 8, 9::nat}"
  by auto

lemma tie_scores:
  "spec_enneagram_score (ocean tie_personality) 1 = Num (341 / 4)"
  "spec_enneagram_score (ocean tie_personality) 2 = Num (2017823739294515 / 17592186044416)"
  "spec_enneagram_score (ocean tie_personality) 3 = Num (2202541692760883 / 17592186044416)"
  "spec_enneagram_score (ocean tie_personality) 4 = Num 125"
  "spec_enneagram_score (ocean tie_personality) 5 = Num (4401564948312883 / 35184372088832)"
  "spec_enneagram_score (ocean tie_personality) 6 = Num (7033355980557517 / 70368744177664)"
  "spec_enneagram_score (ocean tie_personality) 7 = Num 125"
  "spec_enneagram_score (ocean tie_personality) 8 = Num (8810166771043533 / 70368744177664)"
  "spec_enneagram_score (ocean tie_personality) 9 = Num (8076220769270497 / 70368744177664)"
  by (simp_all add: spec_enneagram_score_def tie_personality_def initial_personality_def
        js_sub_def fl_eval round_half_even_def)

lemma initial_scores:
  "spec_enneagram_score (ocean initial_personality) 1 = Num 85"
  "spec_enneagram_score (ocean initial_personality) 2 = Num 115"
  "spec_enneagram_score (ocean initial_personality) 3 = Num 125"
  "spec_enneagram_score (ocean initial_personality) 4 = Num 125"
  "spec_enneagram_score (ocean initial_personality) 5 = Num 125"
  "spec_enneagram_score (ocean initial_personality) 6 = Num 100"
  "spec_enneagram_score (ocean initial_personality) 7 = Num 125"
  "spec_enneagram_score (ocean initial_personality) 8 = Num 125"
  "spec_enneagram_score (ocean initial_personality) 9 = Num 115"
  by (simp_all add: spec_enneagram_score_def initial_personality_def
        js_sub_def fl_eval round_half_even_def)

text \<open>
  C4, as stated, fails where rounding separates scores that are equal in exact arithmetic.
  With O = E = N = 50 and C and A the doubles of \<open>50 + 0.1\<close> and \<open>50 - 0.2\<close>, the exact
  combinations of types 3 and 8 are equal and the highest, yet the scores computed are
  125.19999999999999 for type 3 and 125.2 for type 8, and the type returned is 8.
\<close>

theorem deriveEnneagram_tie_counterexample:
  "exact_enneagram_score (ocean tie_personality) 3 = exact_enneagram_score (ocean tie_personality) 8
   \<and> exact_enneagram_score (ocean tie_personality) 1 \<le> exact_enneagram_score (ocean tie_personality) 3
   \<and> exact_enneagram_score (ocean tie_personality) 2 \<le> exact_enneagram_score (ocean tie_personality) 3
   \<and> exact_enneagram_score (ocean tie_personality) 4 \<le> exact_enneagram_score (ocean tie_personality) 3
   \<and> exact_enneagram_score (ocean tie_personality) 5 \<le> exact_enneagram_score (ocean tie_personality) 3
   \<and> exact_enneagram_score (ocean tie_personality) 6 \<le> exact_enneagram_score (ocean tie_personality) 3
   \<and> exact_enneagram_score (ocean tie_personality) 7 \<le> exact_enneagram_score (ocean tie_personality) 3
   \<and> exact_enneagram_score (ocean tie_personality) 9 \<le> exact_enneagram_score (ocean tie_personality) 3
   \<and> deriveEnneagram tie_personality = Inr (8, enneagram_descriptions 8)"
proof -
  have tr: "\<forall>t. 0 \<le> ocean tie_personality t \<and> ocean tie_personality t \<le> 100"
    by (simp add: tie_personality_def initial_personality_def)
  from deriveEnneagram_first_maximum [OF tr] obtain t
    where t: "deriveEnneagram tie_personality = Inr (t, enneagram_descriptions t)"
      "1 \<le> t" "t \<le> 9"
    and mx: "\<forall>u. 1 \<le> u \<and> u \<le> 9 \<longrightarrow>
        \<not> js_less (spec_enneagram_score (ocean tie_personality) t)
              (spec_enneagram_score (ocean tie_personality) u)"
    by blast
  from mx have "\<not> js_less (spec_enneagram_score (ocean tie_personality) t)
                  (spec_enneagram_score (ocean tie_personality) 8)"
    by simp
  with type_cases [OF t(2,3)] have "t = 8"
    by (auto simp: tie_scores tie_scores(1) [unfolded One_nat_def])
  with t(1) have d: "deriveEnneagram tie_personality = Inr (8, enneagram_descriptions 8)"
    by simp
  have "exact_enneagram_score (ocean tie_personality) 3 = exact_enneagram_score (ocean tie_personality) 8"
    "exact_enneagram_score (ocean tie_personality) 1 \<le> exact_enneagram_score (ocean tie_personality) 3"
    "exact_enneagram_score (ocean tie_personality) 2 \<le> exact_enneagram_score (ocean tie_personality) 3"
    "exact_enneagram_score (ocean tie_personality) 4 \<le> exact_enneagram_score (ocean tie_personality) 3"
    "exact_enneagram_score (ocean tie_personality) 5 \<le> exact_enneagram_score (ocean tie_personality) 3"
    "exact_enneagram_score (ocean tie_personality) 6 \<le> exact_enneagram_score (ocean tie_personality) 3"
    "exact_enneagram_score (ocean tie_personality) 7 \<le> exact_enneagram_score (ocean tie_personality) 3"
    "exact_enneagram_score (ocean tie_personality) 9 \<le> exact_enneagram_score (ocean tie_personality) 3"
    by (simp_all add: exact_enneagram_score_def tie_personality_def initial_personality_def)
  with d show ?thesis
    by blast
qed

text \<open>
  C4, amended. The nine scores of \<^verbatim>\<open>deriveEnneagram\<close> are the weighted combinations of
  the table computed from the current O, C, E, A and N in double arithmetic, each operation
  rounded. With traits within [0,100] every score is a finite double, the type returned has
  the highest computed score, and among the types whose computed scores tie for the highest
  it is the one with the smallest identifier.
\<close>

theorem deriveEnneagram_highest_lowest_id:
  "enneagram_scores p = map (\<lambda>t. (t, spec_enneagram_score (ocean p) t)) [1, 2, 3, 4, 5, 6, 7, 8, 9]
   \<and> ((\<forall>t. 0 \<le> ocean p t \<and> ocean p t \<le> 100) \<longrightarrow>
        (\<forall>u. finite_double (spec_enneagram_score (ocean p) u))
        \<and> (\<exists>t. deriveEnneagram p = Inr (t, enneagram_descriptions t)
              \<and> 1 \<le> t \<and> t \<le> 9
              \<and> (\<forall>u. 1 \<le> u \<and> u \<le> 9 \<longrightarrow>
                    \<not> js_less (spec_enneagram_score (ocean p) t)
                          (spec_enneagram_score (ocean p) u)
                    \<and> (spec_enneagram_score (ocean p) u = spec_enneagram_score (ocean p) t
                         \<longrightarrow> t \<le> u))))"
  using enneagram_scores_spec [of p] spec_enneagram_score_finite [of "ocean p"]
    deriveEnneagram_first_maximum [of p]
  by blast

theorem deriveEnneagram_highest_lowest_id_witness:
  "ocean initial_personality = (\<lambda>_. 50)
   \<and> deriveEnneagram initial_personality = Inr (3, enneagram_descriptions 3)
   \<and> spec_enneagram_score (ocean initial_personality) 3 = Num 125
   \<and> spec_enneagram_score (ocean initial_personality) 4 = Num 125
   \<and> spec_enneagram_score (ocean initial_personality) 2 = Num 115"
proof -
  have o: "ocean initial_personality = (\<lambda>_. 50)"
    by (simp add: initial_personality_def)
  then have tr: "\<forall>t. 0 \<le> ocean initial_personality t \<and> ocean initial_personality t \<le> 100"
    by simp
  from deriveEnneagram_highest_lowest_id [of initial_personality] tr obtain t
    where t: "deriveEnneagram initial_personality = Inr (t, enneagram_descriptions t)"
      "1 \<le> t" "t \<le> 9"
    and mx: "\<forall>u. 1 \<le> u \<and> u \<le> 9 \<longrightarrow>
        \<not> js_less (spec_enneagram_score (ocean initial_personality) t)
              (spec_enneagram_score (ocean initial_personality) u)
        \<and> (spec_enneagram_score (ocean initial_personality) u
              = spec_enneagram_score (ocean initial_personality) t \<longrightarrow> t \<le> u)"
    by blast
  from mx have "\<not> js_less (spec_enneagram_score (ocean initial_personality) t)
                  (spec_enneagram_score (ocean initial_personality) 3)
      \<and> (spec_enneagram_score (ocean initial_personality) 3
              = spec_enneagram_score (ocean initial_personality) t \<longrightarrow> t \<le> 3)"
    by simp
  with type_cases [OF t(2,3)] have "t = 3"
    by (auto simp: initial_scores initial_scores(1) [unfolded One_nat_def])
  with t(1) o initial_scores(2,3,4) show ?thesis
    by simp
qed

section \<open>Resolving the first choice\<close>

lemma addTrajectoryTags_frame:
  "ocean (addTrajectoryTags tags p) = ocean p \<and> stress (addTrajectoryTags tags p) = stress p
   \<and> confidence (addTrajectoryTags tags p) = confidence p"
  by (induction tags arbitrary: p) (simp_all add: addTrajectoryTag_def)

lemma grant_tags_frame:
  "ocean (case tgs of None \<Rightarrow> p | Some tags \<Rightarrow> addTrajectoryTags tags p) = ocean p
   \<and> stress (case tgs of None \<Rightarrow> p | Some tags \<Rightarrow> addTrajectoryTags tags p) = stress p"
  by (cases tgs) (simp_all add: addTrajectoryTags_frame)

lemma floor_jitter:
  fixes rnd :: real
  assumes "0 \<le> rnd" "rnd < 1"
  shows "\<lfloor>rnd * 2\<rfloor> = 0 \<or> \<lfloor>rnd * 2\<rfloor> = 1"
proof -
  have "0 \<le> \<lfloor>rnd * 2\<rfloor>" using assms(1) by simp
  moreover have "\<lfloor>rnd * 2\<rfloor> < 2" using assms(2) by (simp add: floor_less_iff)
  ultimately show ?thesis by linarith
qed

text \<open>
  C5. From the initial state (age 18, stage early, empty history, all traits 50, stress 30),
  \<^verbatim>\<open>processChoice\<close> on any scenario and a choice with \<^verbatim>\<open>stress_delta\<close> -10 and
  \<^verbatim>\<open>ocean_weights\<close> \<open>{C: +15}\<close>, with a random number of [0,1), leaves a stress that is
  at most the previous one and not negative, increases C by exactly 15, advances the age by
  2 or 3 (2 plus a jitter of 0 or 1), and makes the history the single returned event,
  whose \<^verbatim>\<open>oceanChanges\<close> has the single key C.
\<close>

theorem processChoice_first_event:
  assumes "currentAge e = 18" and "currentStage e = ''early''" and "eventHistory e = []"
    and "ocean p = (\<lambda>_. 50)" and "stress p = 30"
    and "stress_delta ch = Some (- 10)" and "ocean_weights ch = Some [(''C'', 15)]"
    and "0 \<le> rnd" and "rnd < 1"
    and "processChoice rnd sc ch p e = (ev, p', e')"
  shows "stress p' \<le> stress p \<and> 0 \<le> stress p'
         \<and> ocean p' TraitC = ocean p TraitC + 15
         \<and> (currentAge e' = currentAge e + 2 \<or> currentAge e' = currentAge e + 3)
         \<and> currentAge e' = currentAge e + 2 + \<lfloor>rnd * 2\<rfloor>
         \<and> length (eventHistory e') = 1 \<and> eventHistory e' = [ev]
         \<and> map fst (oceanChanges ev) = [TraitC]"
proof -
  define p2 where "p2 = applyStress (- 10) (applyWeights [(''C'', 15)] p)"
  define p3 where
    "p3 = (case trajectory_tags ch of None \<Rightarrow> p2 | Some tags \<Rightarrow> addTrajectoryTags tags p2)"
  define ev0 where
    "ev0 = \<lparr>scenarioId = scenario_id sc, title = scenario_title sc,
            choiceId = choice_id ch, choiceTitle = choice_title ch,
            age = currentAge e, stage = currentStage e, outcome = choice_outcome ch,
            oceanBefore = ocean p, stressBefore = stress p,
            oceanAfter = ocean p3, stressAfter = stress p3,
            oceanChanges = ocean_changes (ocean p) (ocean p3)\<rparr>"
  define e1 where "e1 = e\<lparr>eventHistory := eventHistory e @ [ev0]\<rparr>"
  have "processChoice rnd sc ch p e =
          (ev0, p3, updateStage (e1\<lparr>currentAge := currentAge e1 + calculateAgeAdvance rnd e1\<rparr>))"
    by (cases "trajectory_tags ch")
       (simp_all add: processChoice_def Let_def assms(6,7) p2_def p3_def ev0_def e1_def)
  with assms(10) have ev: "ev = ev0" and p': "p' = p3"
    and e': "e' = updateStage (e1\<lparr>currentAge := currentAge e1 + calculateAgeAdvance rnd e1\<rparr>)"
    by simp_all
  have o2: "ocean p2 = (\<lambda>_. 50)(TraitC := 65)" and s2: "stress p2 = 20"
    using assms(4,5) by (simp_all add: p2_def applyStress_def applyWeight_def trait_of_key_def)
  have o3: "ocean p3 = (\<lambda>_. 50)(TraitC := 65)" and s3: "stress p3 = 20"
    using grant_tags_frame [where tgs = "trajectory_tags ch" and p = p2] o2 s2
    by (simp_all add: p3_def)
  have ch: "oceanChanges ev = [(TraitC, 15)]"
    unfolding ev ev0_def o3 assms(4) by (simp add: ocean_changes_def all_traits_def)
  have adv: "calculateAgeAdvance rnd e1 = 2 + \<lfloor>rnd * 2\<rfloor>"
    using assms(2) by (simp add: calculateAgeAdvance_def e1_def)
  have age: "currentAge e' = currentAge e + 2 + \<lfloor>rnd * 2\<rfloor>"
    unfolding e' adv by (simp add: updateStage_def e1_def)
  have hist: "eventHistory e' = [ev]"
    unfolding e' ev by (simp add: updateStage_def e1_def assms(3))
  from floor_jitter [OF assms(8,9)] age
  have "currentAge e' = currentAge e + 2 \<or> currentAge e' = currentAge e + 3"
    by auto
  with p' o3 s3 ch age hist assms(4,5) show ?thesis
    by simp
qed

theorem processChoice_first_event_witness:
  "currentAge initial_event_system = 18 \<and> currentStage initial_event_system = ''early''
   \<and> eventHistory initial_event_system = []
   \<and> ocean initial_personality = (\<lambda>_. 50) \<and> stress initial_personality = 30
   \<and> stress_delta example_choice = Some (- 10)
   \<and> ocean_weights example_choice = Some [(''C'', 15)]
   \<and> (0::real) \<le> 7 / 10 \<and> (7::real) / 10 < 1
   \<and> stress (fst (snd (processChoice (7 / 10) example_scenario example_choice
                          initial_personality initial_event_system))) = 20
   \<and> ocean (fst (snd (processChoice (7 / 10) example_scenario example_choice
                          initial_personality initial_event_system))) TraitC = 65
   \<and> currentAge (snd (snd (processChoice (7 / 10) example_scenario example_choice
                          initial_personality initial_event_system))) = 21
   \<and> length (eventHistory (snd (snd (processChoice (7 / 10) example_scenario example_choice
                          initial_personality initial_event_system)))) = 1
   \<and> map fst (oceanChanges (fst (processChoice (7 / 10) example_scenario example_choice
                          initial_personality initial_event_system))) = [TraitC]"
proof -
  let ?r = "processChoice (7 / 10) example_scenario example_choice
              initial_personality initial_event_system"
  have h: "currentAge initial_event_system = 18" "currentStage initial_event_system = ''early''"
    "eventHistory initial_event_system = []"
    "ocean initial_personality = (\<lambda>_. 50)" "stress initial_personality = 30"
    "stress_delta example_choice = Some (- 10)"
    "ocean_weights example_choice = Some [(''C'', 15)]"
    "(0::real) \<le> 7 / 10" "(7::real) / 10 < 1"
    by (simp_all add: initial_event_system_def initial_personality_def example_choice_def)
  have r: "?r = (fst ?r, fst (snd ?r), snd (snd ?r))"
    by simp
  note th = processChoice_first_event [OF h r]
  have f: "\<lfloor>(7::real) / 10 * 2\<rfloor> = 1"
    by (simp add: floor_eq_iff)
  from th h(1,4,5) f have
    "stress (fst (snd ?r)) \<le> 30" "0 \<le> stress (fst (snd ?r))"
    "ocean (fst (snd ?r)) TraitC = 65" "currentAge (snd (snd ?r)) = 21"
    "length (eventHistory (snd (snd ?r))) = 1" "map fst (oceanChanges (fst ?r)) = [TraitC]"
    by simp_all
  moreover have "stress (fst (snd ?r)) = 20"
    by (simp add: processChoice_def example_choice_def initial_personality_def applyStress_def
          applyWeight_def trait_of_key_def addTrajectoryTag_def Let_def)
  ultimately show ?thesis
    using h by simp
qed

section \<open>The end of the simulation\<close>

lemma scenario_filter_ok:
  "age_range sc \<noteq> None \<Longrightarrow>
     scenario_filter (map scenarioId (eventHistory e)) (currentStage e) (currentAge e) sc
       = Inr (spec_available e sc)"
  by (auto simp: scenario_filter_def spec_available_def split: option.splits)

lemma js_filter_total:
  "list_all (\<lambda>x. f x = Inr (P x)) xs \<Longrightarrow> js_filter f xs = Inr (filter P xs)"
  by (induction xs) simp_all

lemma refreshAvailableScenarios_ok:
  assumes "scenarios e = Some scs" and "list_all (\<lambda>sc. age_range sc \<noteq> None) scs"
  shows "refreshAvailableScenarios e = Inr (e\<lparr>availableScenarios := filter (spec_available e) scs\<rparr>)"
proof -
  have "list_all (\<lambda>sc. scenario_filter (map scenarioId (eventHistory e)) (currentStage e)
            (currentAge e) sc = Inr (spec_available e sc)) scs"
    using assms(2) by (simp add: list_all_iff scenario_filter_ok)
  from js_filter_total [OF this] assms(1) show ?thesis
    by (simp add: refreshAvailableScenarios_def)
qed

lemma spec_available_cong:
  "currentAge e' = currentAge e \<Longrightarrow> currentStage e' = currentStage e \<Longrightarrow>
   eventHistory e' = eventHistory e \<Longrightarrow> spec_available e' = spec_available e"
  by (rule ext) (simp add: spec_available_def split: option.splits)

text \<open>
  C7. \<^verbatim>\<open>shouldEndSimulation\<close> returns true at once when the age is at least 75. On a
  catalogue whose scenarios all have an age range it returns, and its result is true
  exactly when the age is at least 75 or the refreshed available set is empty and the
  history has at least 5 events: false for an empty available set and 4 events (age below
  75), true for an empty available set and 5 events.
\<close>

theorem shouldEndSimulation_iff:
  "(75 \<le> currentAge e \<longrightarrow> shouldEndSimulation e = Inr (True, e))
   \<and> (scenarios e = Some scs \<and> list_all (\<lambda>sc. age_range sc \<noteq> None) scs \<longrightarrow>
        (\<exists>e'. shouldEndSimulation e =
                 Inr (75 \<le> currentAge e
                        \<or> (filter (spec_available e) scs = [] \<and> 5 \<le> length (eventHistory e)), e'))
        \<and> (currentAge e < 75 \<and> filter (spec_available e) scs = [] \<and> length (eventHistory e) = 4
              \<longrightarrow> shouldEndSimulation e = Inr (False, e\<lparr>availableScenarios := []\<rparr>))
        \<and> (currentAge e < 75 \<and> filter (spec_available e) scs = [] \<and> length (eventHistory e) = 5
              \<longrightarrow> shouldEndSimulation e = Inr (True, e\<lparr>availableScenarios := []\<rparr>)))"
proof (intro conjI impI)
  assume "75 \<le> currentAge e"
  then show "shouldEndSimulation e = Inr (True, e)"
    by (simp add: shouldEndSimulation_def)
next
  assume "scenarios e = Some scs \<and> list_all (\<lambda>sc. age_range sc \<noteq> None) scs"
  then have r: "refreshAvailableScenarios e
                  = Inr (e\<lparr>availableScenarios := filter (spec_available e) scs\<rparr>)"
    by (simp add: refreshAvailableScenarios_ok)
  show "\<exists>e'. shouldEndSimulation e =
                 Inr (75 \<le> currentAge e
                        \<or> (filter (spec_available e) scs = [] \<and> 5 \<le> length (eventHistory e)), e')"
    by (simp add: shouldEndSimulation_def r)
  {
    assume "currentAge e < 75 \<and> filter (spec_available e) scs = [] \<and> length (eventHistory e) = 4"
    then show "shouldEndSimulation e = Inr (False, e\<lparr>availableScenarios := []\<rparr>)"
      by (simp add: shouldEndSimulation_def r)
  }
  {
    assume "currentAge e < 75 \<and> filter (spec_available e) scs = [] \<and> length (eventHistory e) = 5"
    then show "shouldEndSimulation e = Inr (True, e\<lparr>availableScenarios := []\<rparr>)"
      by (simp add: shouldEndSimulation_def r)
  }
qed

theorem shouldEndSimulation_iff_witness:
  "scenarios (narrow_engine [] 18) = Some [midlife_scenario]
   \<and> list_all (\<lambda>sc. age_range sc \<noteq> None) [midlife_scenario]
   \<and> shouldEndSimulation
         (narrow_engine [example_event, example_event, example_event, example_event] 18)
       = Inr (False,
              narrow_engine [example_event, example_event, example_event, example_event] 18)
   \<and> shouldEndSimulation
         (narrow_engine [example_event, example_event, example_event, example_event,
                         example_event] 18)
       = Inr (True,
              narrow_engine [example_event, example_event, example_event, example_event,
                             example_event] 18)
   \<and> (75::int) \<le> currentAge (narrow_engine [] 76)
   \<and> shouldEndSimulation (narrow_engine [] 76) = Inr (True, narrow_engine [] 76)"
proof -
  let ?e4 = "narrow_engine [example_event, example_event, example_event, example_event] 18"
  let ?e5 = "narrow_engine [example_event, example_event, example_event, example_event,
                            example_event] 18"
  have s: "scenarios (narrow_engine h a) = Some [midlife_scenario]" for h a
    by (simp add: narrow_engine_def)
  have l: "list_all (\<lambda>sc. age_range sc \<noteq> None) [midlife_scenario]"
    by (simp add: midlife_scenario_def)
  have f: "filter (spec_available (narrow_engine h 18)) [midlife_scenario] = []" for h
    by (simp add: spec_available_def narrow_engine_def midlife_scenario_def
          initial_event_system_def)
  have a: "availableScenarios (narrow_engine h b) = []" for h b
    by (simp add: narrow_engine_def initial_event_system_def)
  have u: "(narrow_engine h b)\<lparr>availableScenarios := []\<rparr> = narrow_engine h b" for h b
    by (simp add: narrow_engine_def initial_event_system_def)
  have "currentAge ?e4 < 75 \<and> length (eventHistory ?e4) = 4"
    by (simp add: narrow_engine_def)
  with shouldEndSimulation_iff [of ?e4 "[midlife_scenario]"] s l f
  have "shouldEndSimulation ?e4 = Inr (False, ?e4\<lparr>availableScenarios := []\<rparr>)"
    by blast
  then have 4: "shouldEndSimulation ?e4 = Inr (False, ?e4)"
    by (simp only: u)
  have "currentAge ?e5 < 75 \<and> length (eventHistory ?e5) = 5"
    by (simp add: narrow_engine_def)
  with shouldEndSimulation_iff [of ?e5 "[midlife_scenario]"] s l f
  have "shouldEndSimulation ?e5 = Inr (True, ?e5\<lparr>availableScenarios := []\<rparr>)"
    by blast
  then have 5: "shouldEndSimulation ?e5 = Inr (True, ?e5)"
    by (simp only: u)
  have o: "(75::int) \<le> currentAge (narrow_engine [] 76)"
    by (simp add: narrow_engine_def)
  with shouldEndSimulation_iff [of "narrow_engine [] 76" "[midlife_scenario]"]
  have 6: "shouldEndSimulation (narrow_engine [] 76) = Inr (True, narrow_engine [] 76)"
    by blast
  from s l 4 5 o 6 show ?thesis by blast
qed

section \<open>Snapshots\<close>

lemma reset_events_ok:
  assumes "scenarios e = Some scs" and "list_all (\<lambda>sc. age_range sc \<noteq> None) scs"
  shows "\<exists>e0. reset_events e = Inr e0 \<and> scenarios e0 = scenarios e
              \<and> trajectoryDescriptions e0 = trajectoryDescriptions e
              \<and> globalModifiers e0 = globalModifiers e
              \<and> currentAge e0 = 18 \<and> currentStage e0 = ''early'' \<and> eventHistory e0 = []"
  using refreshAvailableScenarios_ok
          [of "e\<lparr>currentAge := 18, currentStage := ''early'', eventHistory := []\<rparr>" scs] assms
  by (simp add: reset_events_def)

lemma restoreState_events_ok:
  assumes "scenarios t = Some scs" and "list_all (\<lambda>sc. age_range sc \<noteq> None) scs"
  shows "restoreState_events (getState_events e) t =
           Inr (t\<lparr>currentAge := currentAge e, currentStage := currentStage e,
                  eventHistory := eventHistory e,
                  availableScenarios := filter (spec_available e) scs\<rparr>)"
proof -
  let ?t = "t\<lparr>currentAge := currentAge e, currentStage := currentStage e,
              eventHistory := eventHistory e\<rparr>"
  have "spec_available ?t = spec_available e"
    by (rule spec_available_cong) simp_all
  with refreshAvailableScenarios_ok [of ?t scs] assms show ?thesis
    by (simp add: restoreState_events_def getState_events_def)
qed

lemma refresh_fields:
  "refreshAvailableScenarios e = Inr e' \<Longrightarrow>
     currentAge e' = currentAge e \<and> currentStage e' = currentStage e
     \<and> eventHistory e' = eventHistory e \<and> scenarios e' = scenarios e"
  by (auto simp: refreshAvailableScenarios_def Let_def split: option.splits sum.splits)

lemma refresh_idem:
  "refreshAvailableScenarios e = Inr e' \<Longrightarrow> refreshAvailableScenarios e' = Inr e'"
  by (auto simp: refreshAvailableScenarios_def Let_def split: option.splits sum.splits)

text \<open>
  C6. For the personality engine, restoring the snapshot of \<^verbatim>\<open>getState\<close> on a reset
  engine gives the state the snapshot was taken from (trait vector, confidence bands,
  stress and tag counts). For the event system, with a catalogue whose scenarios all have
  an age range: resetting the engine and restoring its snapshot returns, and gives the age,
  stage and history (and the catalogue) of the original with the available set recomputed
  from them; and whatever engine a snapshot is restored on, when the call returns the age,
  stage and history are those of the snapshot and the available set is the refreshed one.
\<close>

theorem getState_restoreState_roundtrip:
  "restoreState_personality (getState_personality p) (reset_personality q) = p
   \<and> (scenarios e = Some scs \<and> list_all (\<lambda>sc. age_range sc \<noteq> None) scs \<longrightarrow>
        (\<exists>e0. reset_events e = Inr e0
           \<and> restoreState_events (getState_events e) e0
               = Inr (e\<lparr>availableScenarios := filter (spec_available e) scs\<rparr>)))
   \<and> (\<forall>t e'. restoreState_events (getState_events e) t = Inr e' \<longrightarrow>
          currentAge e' = currentAge e \<and> currentStage e' = currentStage e
          \<and> eventHistory e' = eventHistory e
          \<and> refreshAvailableScenarios e' = Inr e')"
proof (intro conjI allI impI)
  show "restoreState_personality (getState_personality p) (reset_personality q) = p"
    by (simp add: restoreState_personality_def getState_personality_def reset_personality_def)
next
  assume a: "scenarios e = Some scs \<and> list_all (\<lambda>sc. age_range sc \<noteq> None) scs"
  then obtain e0 where e0: "reset_events e = Inr e0" "scenarios e0 = scenarios e"
      "trajectoryDescriptions e0 = trajectoryDescriptions e"
      "globalModifiers e0 = globalModifiers e"
    using reset_events_ok [of e scs] by blast
  from a e0(2) have "scenarios e0 = Some scs"
    by simp
  from restoreState_events_ok [OF this, of e] a
  have "restoreState_events (getState_events e) e0 =
          Inr (e0\<lparr>currentAge := currentAge e, currentStage := currentStage e,
                  eventHistory := eventHistory e,
                  availableScenarios := filter (spec_available e) scs\<rparr>)"
    by simp
  moreover have "e0\<lparr>currentAge := currentAge e, currentStage := currentStage e,
                  eventHistory := eventHistory e,
                  availableScenarios := filter (spec_available e) scs\<rparr>
                 = e\<lparr>availableScenarios := filter (spec_available e) scs\<rparr>"
    using e0(2-4) by (intro event_system.equality) simp_all
  ultimately show "\<exists>e0. reset_events e = Inr e0
           \<and> restoreState_events (getState_events e) e0
               = Inr (e\<lparr>availableScenarios := filter (spec_available e) scs\<rparr>)"
    using e0(1) by simp
next
  fix t e'
  assume r: "restoreState_events (getState_events e) t = Inr e'"
  let ?t = "t\<lparr>currentAge := currentAge e, currentStage := currentStage e,
              eventHistory := eventHistory e\<rparr>"
  from r have rr: "refreshAvailableScenarios ?t = Inr e'"
    by (simp add: restoreState_events_def getState_events_def)
  from refresh_fields [OF rr] refresh_idem [OF rr]
  show "currentAge e' = currentAge e" "currentStage e' = currentStage e"
    "eventHistory e' = eventHistory e" "refreshAvailableScenarios e' = Inr e'"
    by simp_all
qed

theorem getState_restoreState_roundtrip_witness:
  "restoreState_personality (getState_personality example_personality)
       (reset_personality example_personality) = example_personality
   \<and> scenarios played_engine = Some [example_scenario, midlife_scenario]
   \<and> list_all (\<lambda>sc. age_range sc \<noteq> None) [example_scenario, midlife_scenario]
   \<and> (\<exists>e0. reset_events played_engine = Inr e0
         \<and> restoreState_events (getState_events played_engine) e0 = Inr played_engine)"
proof -
  have s: "scenarios played_engine = Some [example_scenario, midlife_scenario]"
    by (simp add: played_engine_def)
  have l: "list_all (\<lambda>sc. age_range sc \<noteq> None) [example_scenario, midlife_scenario]"
    by (simp add: example_scenario_def midlife_scenario_def)
  have f: "played_engine\<lparr>availableScenarios :=
             filter (spec_available played_engine) [example_scenario, midlife_scenario]\<rparr>
           = played_engine"
    by (simp add: played_engine_def spec_available_def example_scenario_def
          midlife_scenario_def example_event_def)
  note th = getState_restoreState_roundtrip
              [of example_personality example_personality played_engine
                  "[example_scenario, midlife_scenario]"]
  from th have 1: "restoreState_personality (getState_personality example_personality)
       (reset_personality example_personality) = example_personality"
    by blast
  from th s l have "\<exists>e0. reset_events played_engine = Inr e0
         \<and> restoreState_events (getState_events played_engine) e0
             = Inr (played_engine\<lparr>availableScenarios :=
                 filter (spec_available played_engine) [example_scenario, midlife_scenario]\<rparr>)"
    by blast
  then have 2: "\<exists>e0. reset_events played_engine = Inr e0
         \<and> restoreState_events (getState_events played_engine) e0 = Inr played_engine"
    by (simp only: f)
  from 1 s l 2 show ?thesis by blast
qed

section \<open>Failed loads\<close>

text \<open>
  C9, as stated, fails for a document that parses but is malformed: the load reports the
  failure, yet the scenario list and the lookup tables have already been replaced. Here
  the document has no \<^verbatim>\<open>scenarios\<close> list.
\<close>

theorem loadScenarios_malformed_counterexample:
  "fst (loadScenarios shapeless_document played_engine) = False
   \<and> scenarios (snd (loadScenarios shapeless_document played_engine)) = None
   \<and> scenarios played_engine = Some [example_scenario, midlife_scenario]
   \<and> snd (loadScenarios shapeless_document played_engine) \<noteq> played_engine"
proof -
  have 1: "loadScenarios shapeless_document played_engine =
          (False, played_engine\<lparr>scenarios := None,
                     trajectoryDescriptions := Some [(''career'', ''A working life'')],
                     globalModifiers := None\<rparr>)"
    by (simp add: loadScenarios_def shapeless_document_def refreshAvailableScenarios_def)
  have 2: "scenarios played_engine = Some [example_scenario, midlife_scenario]"
    by (simp add: played_engine_def)
  have "scenarios (snd (loadScenarios shapeless_document played_engine)) \<noteq> scenarios played_engine"
    unfolding 1 2 by simp
  then have "snd (loadScenarios shapeless_document played_engine) \<noteq> played_engine"
    by auto
  with 1 2 show ?thesis by simp
qed

text \<open>
  C9, amended. \<^verbatim>\<open>loadScenarios\<close> always returns (no exception escapes). When the source
  is unreachable, is not parsable, or is the document \<^verbatim>\<open>null\<close>, it returns false and
  the engine is in its state before the load. Whenever it returns false, the available
  set, the age, the stage and the history are those before the load.
\<close>

theorem loadScenarios_failure:
  "(r = Unreachable \<or> r = Unparsable \<or> r = Document None \<longrightarrow> loadScenarios r e = (False, e))
   \<and> (fst (loadScenarios r e) = False \<longrightarrow>
        availableScenarios (snd (loadScenarios r e)) = availableScenarios e
        \<and> currentAge (snd (loadScenarios r e)) = currentAge e
        \<and> currentStage (snd (loadScenarios r e)) = currentStage e
        \<and> eventHistory (snd (loadScenarios r e)) = eventHistory e)"
proof (intro conjI impI)
  assume "r = Unreachable \<or> r = Unparsable \<or> r = Document None"
  then show "loadScenarios r e = (False, e)"
    by (auto simp: loadScenarios_def)
next
  assume f: "fst (loadScenarios r e) = False"
  have "availableScenarios (snd (loadScenarios r e)) = availableScenarios e
        \<and> currentAge (snd (loadScenarios r e)) = currentAge e
        \<and> currentStage (snd (loadScenarios r e)) = currentStage e
        \<and> eventHistory (snd (loadScenarios r e)) = eventHistory e"
  proof (cases r)
    case (Document d)
    show ?thesis
    proof (cases d)
      case None
      with Document show ?thesis by (simp add: loadScenarios_def)
    next
      case (Some data)
      with Document f show ?thesis
        by (simp add: loadScenarios_def Let_def split: sum.splits)
    qed
  qed (simp_all add: loadScenarios_def)
  then show "availableScenarios (snd (loadScenarios r e)) = availableScenarios e"
    "currentAge (snd (loadScenarios r e)) = currentAge e"
    "currentStage (snd (loadScenarios r e)) = currentStage e"
    "eventHistory (snd (loadScenarios r e)) = eventHistory e"
    by simp_all
qed

theorem loadScenarios_failure_witness:
  "loadScenarios Unparsable played_engine = (False, played_engine)
   \<and> fst (loadScenarios rangeless_document played_engine) = False
   \<and> availableScenarios (snd (loadScenarios rangeless_document played_engine)) = [midlife_scenario]
   \<and> currentAge (snd (loadScenarios rangeless_document played_engine)) = 31"
proof -
  have 1: "loadScenarios Unparsable played_engine = (False, played_engine)"
    using loadScenarios_failure [of Unparsable played_engine] by blast
  have f: "fst (loadScenarios rangeless_document played_engine) = False"
    by (simp add: loadScenarios_def rangeless_document_def refreshAvailableScenarios_def
          scenario_filter_def rangeless_scenario_def played_engine_def example_event_def)
  with loadScenarios_failure [of rangeless_document played_engine]
  have "availableScenarios (snd (loadScenarios rangeless_document played_engine))
          = availableScenarios played_engine
        \<and> currentAge (snd (loadScenarios rangeless_document played_engine))
          = currentAge played_engine"
    by blast
  then have "availableScenarios (snd (loadScenarios rangeless_document played_engine))
          = [midlife_scenario]
        \<and> currentAge (snd (loadScenarios rangeless_document played_engine)) = 31"
    by (simp add: played_engine_def)
  with 1 f show ?thesis by blast
qed

end
